theory Spec2Isabelle
  imports Main "HOL-Library.AList" "HOL-Library.Sublist"
begin

section \<open>Python strings\<close>

text \<open>
  A Python \<^verbatim>\<open>str\<close> is a sequence of Unicode code points, so a string is a list of
  natural numbers here. \<open>ustr\<close> reads an ASCII literal as such a string.
\<close>

type_synonym pystr = "nat list"

definition ustr :: "string \<Rightarrow> pystr" where
  "ustr s = map of_char s"

definition colon :: nat where
  "colon = 58"

definition sep :: nat where
  "sep = 47"

definition extsep :: nat where
  "extsep = 46"

text \<open>
  The characters \<^verbatim>\<open>str.strip()\<close> removes when called without argument: the code
  points for which \<^verbatim>\<open>str.isspace()\<close> holds.
\<close>

definition isspace :: "nat \<Rightarrow> bool" where
  "isspace c \<longleftrightarrow>
     (9 \<le> c \<and> c \<le> 13) \<or> (28 \<le> c \<and> c \<le> 32) \<or> c = 133 \<or> c = 160 \<or> c = 5760 \<or>
     (8192 \<le> c \<and> c \<le> 8202) \<or> c = 8232 \<or> c = 8233 \<or> c = 8239 \<or> c = 8287 \<or> c = 12288"

definition lstrip :: "pystr \<Rightarrow> pystr" where
  "lstrip s = dropWhile isspace s"

definition rstrip :: "pystr \<Rightarrow> pystr" where
  "rstrip s = rev (dropWhile isspace (rev s))"

definition strip :: "pystr \<Rightarrow> pystr" where
  "strip s = rstrip (lstrip s)"

definition startswith :: "pystr \<Rightarrow> pystr \<Rightarrow> bool" where
  "startswith s p \<longleftrightarrow> take (length p) s = p"

definition endswith :: "pystr \<Rightarrow> pystr \<Rightarrow> bool" where
  "endswith s p \<longleftrightarrow> length p \<le> length s \<and> drop (length s - length p) s = p"

text \<open>
  \<^verbatim>\<open>line.split(":", 1)\<close>: one part when the separator is absent, otherwise the text
  before the first separator and everything after it.
\<close>

definition split_colon :: "pystr \<Rightarrow> pystr list" where
  "split_colon line =
     (if colon \<in> set line
      then [takeWhile (\<lambda>c. c \<noteq> colon) line, tl (dropWhile (\<lambda>c. c \<noteq> colon) line)]
      else [line])"

section \<open>Exceptions and records\<close>

datatype py_exception =
    BadZipFile pystr
  | AttributeError pystr
  | ValueError pystr
  | KeyError pystr
  | FileNotFoundError pystr
  | OtherException pystr

fun str_of :: "py_exception \<Rightarrow> pystr" where
  "str_of (BadZipFile m) = m"
| "str_of (AttributeError m) = m"
| "str_of (ValueError m) = m"
| "str_of (KeyError m) = m"
| "str_of (FileNotFoundError m) = m"
| "str_of (OtherException m) = m"

text \<open>
  A value of the \<^verbatim>\<open>content\<close> dictionary is a string, or the list kept under
  \<^verbatim>\<open>"free_text"\<close>. The dictionary is an association list in insertion order:
  storing under a key that is present replaces the value in place, storing under a new
  key appends the entry, as a Python \<^verbatim>\<open>dict\<close> does (\<open>AList.update\<close>).
\<close>

datatype pyvalue = Str pystr | Lst "pystr list"

type_synonym content = "(pystr \<times> pyvalue) list"

record metadata =
  source_file :: pystr
  converted_at :: pystr
  total_paragraphs :: nat
  content_paragraphs :: "nat option"

record data =
  metadata :: metadata
  content :: content

definition free_text :: pystr where
  "free_text = ustr ''free_text''"

definition no_append :: pystr where
  "no_append = ustr [CHR 0x27] @ ustr ''str'' @ ustr [CHR 0x27] @ ustr '' object has no attribute ''
     @ ustr [CHR 0x27] @ ustr ''append'' @ ustr [CHR 0x27]"

section \<open>The paragraph loop\<close>

text \<open>
  The part of the loop body that handles a non-blank, trimmed line
  (\<^verbatim>\<open>convert_docx_to_json.py\<close> lines 37-44, \<^verbatim>\<open>streamlit_app.py\<close> lines 70-77).
  Unpacking \<^verbatim>\<open>key, value = ...\<close> raises \<^verbatim>\<open>ValueError\<close> unless the split has two
  parts; \<^verbatim>\<open>.append\<close> on a string raises \<^verbatim>\<open>AttributeError\<close>.
\<close>

definition store_line :: "content \<Rightarrow> pystr \<Rightarrow> py_exception + content" where
  "store_line c line =
     (if colon \<in> set line then
        (case split_colon line of
           [key, val] \<Rightarrow> Inr (AList.update (strip key) (Str (strip val)) c)
         | _ \<Rightarrow> Inl (ValueError (ustr ''not enough values to unpack (expected 2, got 1)'')))
      else
        (let c' = (if free_text \<notin> fst ` set c then AList.update free_text (Lst []) c else c)
         in case map_of c' free_text of
              Some (Lst xs) \<Rightarrow> Inr (AList.update free_text (Lst (xs @ [line])) c')
            | Some (Str s) \<Rightarrow> Inl (AttributeError no_append)
            | None \<Rightarrow> Inl (KeyError free_text)))"

text \<open>The loop of \<^verbatim>\<open>convert_docx_to_json.py\<close> (lines 33-44).\<close>

fun parse_paragraphs :: "content \<Rightarrow> pystr list \<Rightarrow> py_exception + content" where
  "parse_paragraphs c [] = Inr c"
| "parse_paragraphs c (para # paras) =
     (let line = strip para in
      if line = [] then parse_paragraphs c paras
      else (case store_line c line of
              Inl ex \<Rightarrow> Inl ex
            | Inr c' \<Rightarrow> parse_paragraphs c' paras))"

text \<open>
  The loop of \<^verbatim>\<open>streamlit_app.py\<close> (lines 62-77), which also counts the lines that
  are not blank in \<^verbatim>\<open>paragraph_count\<close>.
\<close>

fun parse_paragraphs_st :: "content \<Rightarrow> nat \<Rightarrow> pystr list \<Rightarrow> py_exception + content \<times> nat" where
  "parse_paragraphs_st c paragraph_count [] = Inr (c, paragraph_count)"
| "parse_paragraphs_st c paragraph_count (para # paras) =
     (let line = strip para in
      if line = [] then parse_paragraphs_st c paragraph_count paras
      else (case store_line c line of
              Inl ex \<Rightarrow> Inl ex
            | Inr c' \<Rightarrow> parse_paragraphs_st c' (Suc paragraph_count) paras))"

section \<open>The batch parser: \<^verbatim>\<open>convert_docx_to_json.py\<close>\<close>

text \<open>
  \<^verbatim>\<open>os.path.basename\<close>: the text after the last separator.
\<close>

definition path_basename :: "pystr \<Rightarrow> pystr" where
  "path_basename p = rev (takeWhile (\<lambda>c. c \<noteq> sep) (rev p))"

definition lock_marker :: pystr where
  "lock_marker = ustr ''~$''"

text \<open>
  What the program reads from outside: \<open>Document e p\<close> is the outcome of
  \<^verbatim>\<open>Document(p)\<close> of the \<^verbatim>\<open>docx\<close> library, an exception or the texts of the
  paragraphs in document order; \<open>now e p\<close> is the value of
  \<^verbatim>\<open>datetime.now().isoformat()\<close> read while \<open>p\<close> is parsed; \<open>getcwd e\<close> is the
  working directory; \<open>walk e top\<close> is what \<^verbatim>\<open>os.walk(top)\<close> yields, one triple of
  directory path, subdirectory names and file names for each directory. The walk is
  taken as given: what the program itself creates during a run are folders and
  \<^verbatim>\<open>.json\<close> files, which the loops pass over. Only exceptions below
  \<^verbatim>\<open>Exception\<close> are modelled.
\<close>

record env =
  Document :: "pystr \<Rightarrow> py_exception + pystr list"
  now :: "pystr \<Rightarrow> pystr"
  getcwd :: pystr
  walk :: "pystr \<Rightarrow> (pystr \<times> pystr list \<times> pystr list) list"

text \<open>
  The lines the batch program prints, kept by kind, and the text of each
  (\<open>render\<close>).
\<close>

datatype printed =
    Skipping_lock_file pystr
  | Error_processing pystr pystr
  | Converted pystr pystr

fun render :: "printed \<Rightarrow> pystr" where
  "render (Skipping_lock_file doc_path) = ustr ''Skipping lock file: '' @ doc_path"
| "render (Error_processing doc_path msg) = ustr ''Error processing '' @ doc_path @ ustr '': '' @ msg"
| "render (Converted doc_path json_path) =
     [91, 10003, 93] @ ustr '' Converted '' @ doc_path @ [32, 8594, 32] @ json_path"

text \<open>
  \<^verbatim>\<open>parse_doc_to_dict\<close> of \<^verbatim>\<open>convert_docx_to_json.py\<close> (lines 13-50): the lines it
  prints and the dictionary it returns, \<open>None\<close> for Python's \<^verbatim>\<open>None\<close>.
\<close>

definition parse_doc_to_dict :: "env \<Rightarrow> pystr \<Rightarrow> printed list \<times> data option" where
  "parse_doc_to_dict e doc_path =
     (if startswith (path_basename doc_path) lock_marker
      then ([Skipping_lock_file doc_path], None)
      else
        (case Document e doc_path of
           Inl ex \<Rightarrow> ([Error_processing doc_path (str_of ex)], None)
         | Inr paragraphs \<Rightarrow>
             (case parse_paragraphs [] paragraphs of
                Inl ex \<Rightarrow> ([Error_processing doc_path (str_of ex)], None)
              | Inr c \<Rightarrow>
                  ([], Some \<lparr>metadata =
                               \<lparr>source_file = path_basename doc_path,
                                converted_at = now e doc_path,
                                total_paragraphs = length paragraphs,
                                content_paragraphs = None\<rparr>,
                             content = c\<rparr>))))"

section \<open>The interactive parser: \<^verbatim>\<open>streamlit_app.py\<close>\<close>

text \<open>
  An uploaded file: its \<^verbatim>\<open>name\<close> attribute if it has one, the outcome of opening it
  with \<^verbatim>\<open>zipfile.ZipFile\<close> and listing the entries (an exception raised anywhere in
  the \<^verbatim>\<open>try\<close> block of the validation, or the names), and the outcome of
  \<^verbatim>\<open>Document(doc_file)\<close>.
\<close>

record upload =
  upload_name :: "pystr option"
  zip_namelist :: "py_exception + pystr list"
  docx_paragraphs :: "py_exception + pystr list"

definition getattr_name :: "upload \<Rightarrow> pystr \<Rightarrow> pystr" where
  "getattr_name doc_file dflt = (case upload_name doc_file of Some n \<Rightarrow> n | None \<Rightarrow> dflt)"

definition required_files :: "pystr list" where
  "required_files = [ustr ''word/document.xml'', ustr ''[Content_Types].xml'']"

text \<open>The loop over \<^verbatim>\<open>required_files\<close> (lines 27-29): the first name that is missing.\<close>

fun first_missing :: "pystr list \<Rightarrow> pystr list \<Rightarrow> pystr option" where
  "first_missing [] zip_contents = None"
| "first_missing (required_file # rest) zip_contents =
     (if required_file \<notin> set zip_contents then Some required_file
      else first_missing rest zip_contents)"

fun validation_failure :: "py_exception \<Rightarrow> pystr" where
  "validation_failure (BadZipFile m) = ustr ''File is not a valid ZIP/DOCX file''"
| "validation_failure ex = ustr ''File validation error: '' @ str_of ex"

definition validate_docx_file :: "upload \<Rightarrow> bool \<times> pystr" where
  "validate_docx_file doc_file =
     (case zip_namelist doc_file of
        Inl ex \<Rightarrow> (False, validation_failure ex)
      | Inr zip_contents \<Rightarrow>
          (case first_missing required_files zip_contents of
             Some required_file \<Rightarrow> (False, ustr ''Missing required file: '' @ required_file)
           | None \<Rightarrow> (True, ustr ''Valid DOCX file'')))"

datatype st_message = st_error pystr | st_warning pystr

definition no_content_found :: pystr where
  "no_content_found =
     ustr '': No content found (document might be empty or use unsupported formatting)''"

text \<open>
  \<^verbatim>\<open>parse_doc_to_dict\<close> of \<^verbatim>\<open>streamlit_app.py\<close> (lines 40-89): the messages shown
  and the dictionary returned. \<open>clock\<close> is the value of \<^verbatim>\<open>datetime.now().isoformat()\<close>.
\<close>

definition parse_doc_to_dict_st :: "pystr \<Rightarrow> upload \<Rightarrow> st_message list \<times> data option" where
  "parse_doc_to_dict_st clock doc_file =
     (let (is_valid, validation_message) = validate_docx_file doc_file in
      if \<not> is_valid
      then ([st_error (getattr_name doc_file (ustr ''File'') @ ustr '': '' @ validation_message)], None)
      else
        (case docx_paragraphs doc_file of
           Inl ex \<Rightarrow>
             ([st_error (ustr ''Error processing '' @ getattr_name doc_file (ustr ''document'')
                 @ ustr '': '' @ str_of ex)], None)
         | Inr paragraphs \<Rightarrow>
             (case parse_paragraphs_st [] 0 paragraphs of
                Inl ex \<Rightarrow>
                  ([st_error (ustr ''Error processing '' @ getattr_name doc_file (ustr ''document'')
                      @ ustr '': '' @ str_of ex)], None)
              | Inr (c, paragraph_count) \<Rightarrow>
                  ((if c = []
                    then [st_warning (getattr_name doc_file (ustr ''File'') @ no_content_found)]
                    else []),
                   Some \<lparr>metadata =
                           \<lparr>source_file = getattr_name doc_file (ustr ''uploaded_file.docx''),
                            converted_at = clock,
                            total_paragraphs = length paragraphs,
                            content_paragraphs = Some paragraph_count\<rparr>,
                         content = c\<rparr>))))"

section \<open>Paths: \<^verbatim>\<open>os.path\<close> on POSIX\<close>

definition curdir :: pystr where
  "curdir = [extsep]"

definition pardir :: pystr where
  "pardir = [extsep, extsep]"

text \<open>\<^verbatim>\<open>os.path.join(a, b)\<close>.\<close>

definition path_join :: "pystr \<Rightarrow> pystr \<Rightarrow> pystr" where
  "path_join a b =
     (if startswith b [sep] then b
      else if a = [] \<or> endswith a [sep] then a @ b
      else a @ sep # b)"

text \<open>\<^verbatim>\<open>s.split("/")\<close> and \<^verbatim>\<open>"/".join(parts)\<close>.\<close>

fun split_sep :: "pystr \<Rightarrow> pystr list" where
  "split_sep [] = [[]]"
| "split_sep (c # cs) =
     (if c = sep then [] # split_sep cs
      else (case split_sep cs of
              [] \<Rightarrow> [[c]]
            | x # xs \<Rightarrow> (c # x) # xs))"

fun join_sep :: "pystr list \<Rightarrow> pystr" where
  "join_sep [] = []"
| "join_sep [x] = x"
| "join_sep (x # y # ys) = x @ sep # join_sep (y # ys)"

text \<open>One round of the loop over the components in \<^verbatim>\<open>os.path.normpath\<close>.\<close>

definition normpath_step :: "nat \<Rightarrow> pystr list \<Rightarrow> pystr \<Rightarrow> pystr list" where
  "normpath_step initial_slashes new_comps part =
     (if part = [] \<or> part = curdir then new_comps
      else if part \<noteq> pardir \<or> (initial_slashes = 0 \<and> new_comps = [])
                \<or> (new_comps \<noteq> [] \<and> last new_comps = pardir)
           then new_comps @ [part]
      else if new_comps \<noteq> [] then butlast new_comps
      else new_comps)"

definition normpath :: "pystr \<Rightarrow> pystr" where
  "normpath path =
     (if path = [] then curdir
      else
        (let initial_slashes =
               (if startswith path [sep]
                then (if startswith path [sep, sep] \<and> \<not> startswith path [sep, sep, sep]
                      then 2 else 1)
                else 0);
             comps = foldl (normpath_step initial_slashes) [] (split_sep path);
             path' = replicate initial_slashes sep @ join_sep comps
         in if path' = [] then curdir else path'))"

definition abspath :: "env \<Rightarrow> pystr \<Rightarrow> pystr" where
  "abspath e path =
     normpath (if startswith path [sep] then path else path_join (getcwd e) path)"

fun commonprefix :: "pystr list \<Rightarrow> pystr list \<Rightarrow> pystr list" where
  "commonprefix (x # xs) (y # ys) = (if x = y then x # commonprefix xs ys else [])"
| "commonprefix xs ys = []"

text \<open>
  \<^verbatim>\<open>os.path.relpath(path, start)\<close>: \<open>relpath_of\<close> is the computation after the guard,
  \<open>path_relpath\<close> the call, which raises \<^verbatim>\<open>ValueError\<close> on an empty path.
\<close>

definition relpath_of :: "env \<Rightarrow> pystr \<Rightarrow> pystr \<Rightarrow> pystr" where
  "relpath_of e path start =
     (let start_list = filter (\<lambda>x. x \<noteq> []) (split_sep (abspath e start));
          path_list = filter (\<lambda>x. x \<noteq> []) (split_sep (abspath e path));
          i = length (commonprefix start_list path_list);
          rel_list = replicate (length start_list - i) pardir @ drop i path_list
      in case rel_list of
           [] \<Rightarrow> curdir
         | x # xs \<Rightarrow> foldl path_join x xs)"

definition path_relpath :: "env \<Rightarrow> pystr \<Rightarrow> pystr \<Rightarrow> py_exception + pystr" where
  "path_relpath e path start =
     (if path = [] then Inl (ValueError (ustr ''no path specified''))
      else Inr (relpath_of e path start))"

text \<open>\<^verbatim>\<open>p.rfind(c)\<close>: the last index of \<open>c\<close>, or \<open>-1\<close>.\<close>

definition rfind :: "pystr \<Rightarrow> nat \<Rightarrow> int" where
  "rfind p c =
     (if c \<in> set p then int (length p) - 1 - int (length (takeWhile (\<lambda>x. x \<noteq> c) (rev p)))
      else - 1)"

text \<open>
  \<^verbatim>\<open>os.path.splitext(p)\<close>: the split is at the last dot, provided that dot comes after
  the last separator and some character between the two is not a dot.
\<close>

definition path_splitext :: "pystr \<Rightarrow> pystr \<times> pystr" where
  "path_splitext p =
     (let sepIndex = rfind p sep; dotIndex = rfind p extsep in
      if dotIndex > sepIndex \<and>
         (\<exists>c \<in> set (take (nat (dotIndex - (sepIndex + 1))) (drop (nat (sepIndex + 1)) p)). c \<noteq> extsep)
      then (take (nat dotIndex) p, drop (nat dotIndex) p)
      else (p, []))"

text \<open>\<^verbatim>\<open>s.replace(old, new)\<close>: every occurrence, found from the left, without overlap.\<close>

function replace :: "pystr \<Rightarrow> pystr \<Rightarrow> pystr \<Rightarrow> pystr" where
  "replace s old new =
     (if old = [] then new @ concat (map (\<lambda>c. c # new) s)
      else if s = [] then []
      else if startswith s old then new @ replace (drop (length old) s) old new
      else hd s # replace (tl s) old new)"
  by pat_completeness auto
termination
  by (relation "measure (\<lambda>(s, old, new). length s)") auto

declare replace.simps [simp del]

section \<open>Conversion: \<^verbatim>\<open>convert_docx_to_json.py\<close>\<close>

text \<open>
  The requests to the file system, in the order they are made: \<^verbatim>\<open>os.makedirs\<close> with
  \<^verbatim>\<open>exist_ok=True\<close>, and \<^verbatim>\<open>open\<close> for writing followed by \<^verbatim>\<open>json.dump\<close>.
\<close>

datatype fsop = Makedirs pystr | Write_json pystr data

text \<open>
  \<^verbatim>\<open>convert_single_file\<close> (lines 52-62): the lines printed, the file written, the value
  returned, in the runs in which the write is carried out. \<^verbatim>\<open>not output_path\<close> holds
  for \<^verbatim>\<open>None\<close> and for the empty string; the dictionary a parse returns is never
  empty, so \<^verbatim>\<open>if data\<close> tests for \<^verbatim>\<open>None\<close>.
\<close>

definition convert_single_file ::
    "env \<Rightarrow> pystr \<Rightarrow> pystr option \<Rightarrow> printed list \<times> fsop list \<times> pystr option" where
  "convert_single_file e input_path output_path =
     (let output_path' =
            (if output_path = None \<or> output_path = Some []
             then replace input_path (ustr ''.docx'') (ustr ''.json'')
             else the output_path);
          (out, data) = parse_doc_to_dict e input_path
      in case data of
           Some d \<Rightarrow> (out, [Write_json output_path' d], Some output_path')
         | None \<Rightarrow> (out, [], None))"

text \<open>
  The calls of \<^verbatim>\<open>convert_folder\<close> that stand outside any \<^verbatim>\<open>try\<close>
  (\<^verbatim>\<open>os.makedirs\<close>, \<^verbatim>\<open>open\<close> with \<^verbatim>\<open>json.dump\<close>, the final \<^verbatim>\<open>print\<close>) can raise, and
  what they do depends on the machine. \<open>os_raises s before request\<close> is the exception the
  request to the file system raises after the requests \<open>before\<close> have been carried out,
  if it raises; \<open>print_raises s line\<close> is the exception printing the line raises, if it
  does.
\<close>

record opsys =
  os_raises :: "fsop list \<Rightarrow> fsop \<Rightarrow> py_exception option"
  print_raises :: "printed \<Rightarrow> py_exception option"

text \<open>
  The state of a run of \<^verbatim>\<open>convert_folder\<close>: the list it builds, the requests carried out
  and the lines printed so far, and the exception that has left the loops, if any.
\<close>

record run =
  converted_files :: "pystr list"
  fs_ops :: "fsop list"
  printed_lines :: "printed list"
  raised :: "py_exception option"

text \<open>Lines 89-90: the output path of a file name in its target folder.\<close>

definition json_path_of :: "pystr \<Rightarrow> pystr \<Rightarrow> pystr" where
  "json_path_of target_folder filename =
     path_join target_folder (fst (path_splitext filename) @ ustr ''.json'')"

text \<open>
  The body of the inner loop (lines 75-96) for one file name. An exception raised by
  \<^verbatim>\<open>os.path.relpath\<close>, \<^verbatim>\<open>os.makedirs\<close>, the write or the \<^verbatim>\<open>print\<close> leaves the loops:
  the state keeps what was done before it, and the iterations that remain do nothing. A
  request that raises is not recorded; what it may leave behind on the disk is outside
  the model.
\<close>

definition convert_file ::
    "env \<Rightarrow> opsys \<Rightarrow> pystr \<Rightarrow> pystr \<Rightarrow> pystr \<Rightarrow> run \<Rightarrow> pystr \<Rightarrow> run" where
  "convert_file e s docx_folder json_folder root r filename =
     (if raised r \<noteq> None then r
      else if \<not> endswith filename (ustr ''.docx'') then r
      else
        (let doc_path = path_join root filename;
             (out, data) = parse_doc_to_dict e doc_path;
             r1 = r\<lparr>printed_lines := printed_lines r @ out\<rparr>
         in case data of
              None \<Rightarrow> r1
            | Some d \<Rightarrow>
                (case path_relpath e root docx_folder of
                   Inl ex \<Rightarrow> r1\<lparr>raised := Some ex\<rparr>
                 | Inr rel_path \<Rightarrow>
                     (let target_folder = path_join json_folder rel_path in
                      case os_raises s (fs_ops r1) (Makedirs target_folder) of
                        Some ex \<Rightarrow> r1\<lparr>raised := Some ex\<rparr>
                      | None \<Rightarrow>
                          (let r2 = r1\<lparr>fs_ops := fs_ops r1 @ [Makedirs target_folder]\<rparr>;
                               json_path = json_path_of target_folder filename
                           in case os_raises s (fs_ops r2) (Write_json json_path d) of
                                Some ex \<Rightarrow> r2\<lparr>raised := Some ex\<rparr>
                              | None \<Rightarrow>
                                  (let r3 = r2\<lparr>fs_ops := fs_ops r2 @ [Write_json json_path d],
                                              converted_files := converted_files r2 @ [json_path]\<rparr>
                                   in case print_raises s (Converted doc_path json_path) of
                                        Some ex \<Rightarrow> r3\<lparr>raised := Some ex\<rparr>
                                      | None \<Rightarrow>
                                          r3\<lparr>printed_lines :=
                                               printed_lines r3 @ [Converted doc_path json_path]\<rparr>))))))"

text \<open>The two loops (lines 73-74).\<close>

fun convert_files ::
    "env \<Rightarrow> opsys \<Rightarrow> pystr \<Rightarrow> pystr \<Rightarrow> pystr \<Rightarrow> run \<Rightarrow> pystr list \<Rightarrow> run" where
  "convert_files e s docx_folder json_folder root r [] = r"
| "convert_files e s docx_folder json_folder root r (filename # files) =
     convert_files e s docx_folder json_folder root
       (convert_file e s docx_folder json_folder root r filename) files"

fun convert_walk ::
    "env \<Rightarrow> opsys \<Rightarrow> pystr \<Rightarrow> pystr \<Rightarrow> run \<Rightarrow> (pystr \<times> pystr list \<times> pystr list) list \<Rightarrow> run" where
  "convert_walk e s docx_folder json_folder r [] = r"
| "convert_walk e s docx_folder json_folder r ((root, dirs, files) # rest) =
     convert_walk e s docx_folder json_folder
       (convert_files e s docx_folder json_folder root r files) rest"

text \<open>
  \<^verbatim>\<open>convert_folder\<close> (lines 64-98). The list returned is \<open>converted_files\<close> of the final
  state when no exception was raised; when one was, it leaves the function and nothing is
  returned. \<^verbatim>\<open>os.makedirs("")\<close> raises \<^verbatim>\<open>FileNotFoundError\<close> on every machine.
\<close>

definition convert_folder :: "env \<Rightarrow> opsys \<Rightarrow> pystr \<Rightarrow> pystr option \<Rightarrow> run" where
  "convert_folder e s docx_folder json_folder =
     (let json_folder' =
            (if json_folder = None \<or> json_folder = Some [] then docx_folder
             else the json_folder)
      in if json_folder' = []
         then \<lparr>converted_files = [], fs_ops = [], printed_lines = [],
               raised = Some (FileNotFoundError (ustr ''[Errno 2] No such file or directory''))\<rparr>
         else
           (case os_raises s [] (Makedirs json_folder') of
              Some ex \<Rightarrow>
                \<lparr>converted_files = [], fs_ops = [], printed_lines = [], raised = Some ex\<rparr>
            | None \<Rightarrow>
                convert_walk e s docx_folder json_folder'
                  \<lparr>converted_files = [], fs_ops = [Makedirs json_folder'], printed_lines = [],
                   raised = None\<rparr>
                  (walk e docx_folder)))"

section \<open>What a run of the batch conversion does\<close>

text \<open>
  The vocabulary used to state what a run of \<^verbatim>\<open>convert_folder\<close> does. \<open>visited w\<close> lists
  the documents of a walk in the order of the two loops: each directory path with each
  of its file names that ends in \<^verbatim>\<open>.docx\<close>.
\<close>

definition visited :: "(pystr \<times> pystr list \<times> pystr list) list \<Rightarrow> (pystr \<times> pystr) list" where
  "visited w =
     concat (map (\<lambda>(root, dirs, files).
                    map (Pair root) (filter (\<lambda>filename. endswith filename (ustr ''.docx'')) files)) w)"

text \<open>The folder the output goes to (lines 66-67).\<close>

definition destination :: "pystr \<Rightarrow> pystr option \<Rightarrow> pystr" where
  "destination docx_folder json_folder =
     (if json_folder = None \<or> json_folder = Some [] then docx_folder else the json_folder)"

text \<open>
  For one visited document: the target folder and output path (lines 84-90), the lines
  printed, the requests to the file system, and the entry added to the list returned.
\<close>

definition target_of :: "env \<Rightarrow> pystr \<Rightarrow> pystr \<Rightarrow> pystr \<Rightarrow> pystr" where
  "target_of e docx_folder json_folder root = path_join json_folder (relpath_of e root docx_folder)"

definition lines_for :: "env \<Rightarrow> pystr \<Rightarrow> pystr \<Rightarrow> pystr \<times> pystr \<Rightarrow> printed list" where
  "lines_for e docx_folder json_folder doc =
     (case doc of (root, filename) \<Rightarrow>
        (case parse_doc_to_dict e (path_join root filename) of
           (out, None) \<Rightarrow> out
         | (out, Some d) \<Rightarrow>
             out @ [Converted (path_join root filename)
                      (json_path_of (target_of e docx_folder json_folder root) filename)]))"

definition ops_for :: "env \<Rightarrow> pystr \<Rightarrow> pystr \<Rightarrow> pystr \<times> pystr \<Rightarrow> fsop list" where
  "ops_for e docx_folder json_folder doc =
     (case doc of (root, filename) \<Rightarrow>
        (case snd (parse_doc_to_dict e (path_join root filename)) of
           None \<Rightarrow> []
         | Some d \<Rightarrow>
             [Makedirs (target_of e docx_folder json_folder root),
              Write_json (json_path_of (target_of e docx_folder json_folder root) filename) d]))"

definition paths_for :: "env \<Rightarrow> pystr \<Rightarrow> pystr \<Rightarrow> pystr \<times> pystr \<Rightarrow> pystr list" where
  "paths_for e docx_folder json_folder doc =
     (case doc of (root, filename) \<Rightarrow>
        (case snd (parse_doc_to_dict e (path_join root filename)) of
           None \<Rightarrow> []
         | Some d \<Rightarrow> [json_path_of (target_of e docx_folder json_folder root) filename]))"

text \<open>The document a printed line is about.\<close>

fun subject :: "printed \<Rightarrow> pystr" where
  "subject (Skipping_lock_file doc_path) = doc_path"
| "subject (Error_processing doc_path msg) = doc_path"
| "subject (Converted doc_path json_path) = doc_path"

text \<open>
  How far a run has come: from the state \<open>r\<close> to the state \<open>r'\<close> the run has added an
  initial part of the paths \<open>A\<close>, of the requests \<open>B\<close> and of the lines \<open>C\<close>, and all of
  them if no exception has left the loops.
\<close>

definition advances :: "run \<Rightarrow> run \<Rightarrow> pystr list \<Rightarrow> fsop list \<Rightarrow> printed list \<Rightarrow> bool" where
  "advances r r' A B C \<longleftrightarrow>
     (\<exists>a b c. converted_files r' = converted_files r @ a \<and>
              fs_ops r' = fs_ops r @ b \<and>
              printed_lines r' = printed_lines r @ c \<and>
              prefix a A \<and> prefix b B \<and> prefix c C \<and>
              (raised r' = None \<longrightarrow> a = A \<and> b = B \<and> c = C))"

section \<open>A sample tree\<close>

definition sample_paragraphs :: "pystr list" where
  "sample_paragraphs = [ustr ''Name: John Doe'', ustr [], ustr ''Age: 30'', ustr ''likes hiking'']"

definition sample_env :: env where
  "sample_env =
     \<lparr>Document = (\<lambda>p. if p = ustr ''in/broken/bad.docx''
                        then Inl (OtherException (ustr ''Package not found''))
                        else Inr sample_paragraphs),
      now = (\<lambda>p. ustr ''2024-05-01T10:00:00''),
      getcwd = ustr ''/home/user'',
      walk = (\<lambda>top. [(ustr ''in'', [ustr ''broken'', ustr ''ok''],
                         [ustr ''a.docx'', ustr ''~$a.docx'', ustr ''notes.txt'']),
                      (ustr ''in/broken'', [], [ustr ''bad.docx'']),
                      (ustr ''in/ok'', [], [ustr ''b.docx''])])\<rparr>"

text \<open>The record the batch parser returns for a document of the sample tree.\<close>

definition sample_data :: "pystr \<Rightarrow> data" where
  "sample_data name =
     \<lparr>metadata =
        \<lparr>source_file = name,
         converted_at = ustr ''2024-05-01T10:00:00'',
         total_paragraphs = 4,
         content_paragraphs = None\<rparr>,
      content = [(ustr ''Name'', Str (ustr ''John Doe'')), (ustr ''Age'', Str (ustr ''30'')),
                 (ustr ''free_text'', Lst [ustr ''likes hiking''])]\<rparr>"

definition sample_upload :: upload where
  "sample_upload =
     \<lparr>upload_name = Some (ustr ''person.docx''),
      zip_namelist = Inr [ustr ''[Content_Types].xml'', ustr ''_rels/.rels'', ustr ''word/document.xml''],
      docx_paragraphs = Inr sample_paragraphs\<rparr>"

text \<open>A machine on which no call raises.\<close>

definition calm :: opsys where
  "calm = \<lparr>os_raises = (\<lambda>before request. None), print_raises = (\<lambda>line. None)\<rparr>"

text \<open>
  A tree in which the output of one document has the name of a folder of the tree:
  in/ok.docx beside the folder in/ok.json, which holds b.docx. Once out/./ok.json is
  written, creating the folder out/ok.json raises.
\<close>

definition clash_env :: env where
  "clash_env =
     \<lparr>Document = (\<lambda>p. Inr sample_paragraphs),
      now = (\<lambda>p. ustr ''2024-05-01T10:00:00''),
      getcwd = ustr ''/home/user'',
      walk = (\<lambda>top. [(ustr ''in'', [ustr ''ok.json''], [ustr ''ok.docx'']),
                      (ustr ''in/ok.json'', [], [ustr ''b.docx''])])\<rparr>"

definition clash :: opsys where
  "clash =
     \<lparr>os_raises = (\<lambda>before request.
                      if request = Makedirs (ustr ''out/ok.json'')
                      then Some (OtherException (ustr ''[Errno 17] File exists''))
                      else None),
      print_raises = (\<lambda>line. None)\<rparr>"

text \<open>
  A package whose main part is not stored as word/document.xml, as an upload and as the
  file in/odd.docx of the batch program; the library reads its paragraphs.
\<close>

definition odd_upload :: upload where
  "odd_upload =
     \<lparr>upload_name = Some (ustr ''odd.docx''),
      zip_namelist = Inr [ustr ''[Content_Types].xml'', ustr ''_rels/.rels'', ustr ''word/document2.xml''],
      docx_paragraphs = Inr sample_paragraphs\<rparr>"

definition odd_env :: env where
  "odd_env = sample_env\<lparr>Document := (\<lambda>p. docx_paragraphs odd_upload)\<rparr>"

text \<open>A document all of whose paragraphs are blank, for the batch program.\<close>

definition blank_env :: env where
  "blank_env = sample_env\<lparr>Document := (\<lambda>p. Inr [ustr [], ustr ''  ''])\<rparr>"

section \<open>Trimming and the paragraph loop\<close>

lemma colon_not_space: "\<not> isspace colon" by (simp add: isspace_def colon_def)

lemma lstrip_colon: "lstrip (K @ colon # V) = lstrip K @ colon # V"
  by (simp add: lstrip_def dropWhile_append colon_not_space)

lemma rstrip_colon: "rstrip (K @ colon # V) = K @ colon # rstrip V"
  by (simp add: rstrip_def dropWhile_append colon_not_space)

lemma strip_colon: "strip (K @ colon # V) = lstrip K @ colon # rstrip V"
  by (simp add: strip_def lstrip_colon rstrip_colon)

lemma rstrip_Cons:
  "rstrip (x # xs) = (if isspace x \<and> (\<forall>y\<in>set xs. isspace y) then [] else x # rstrip xs)"
  by (auto simp: rstrip_def dropWhile_append)

lemma rstrip_Nil: "rstrip [] = []" by (simp add: rstrip_def)

lemma dropWhile_all: "\<forall>x\<in>set xs. P x \<Longrightarrow> dropWhile P xs = []"
  by (induction xs) auto

lemma lstrip_rstrip: "lstrip (rstrip xs) = rstrip (lstrip xs)"
  by (induction xs) (auto simp: rstrip_Cons rstrip_Nil lstrip_def dropWhile_all)

lemma rstrip_idem: "rstrip (rstrip xs) = rstrip xs"
  by (simp add: rstrip_def)

lemma strip_lstrip: "strip (lstrip xs) = strip xs"
  by (simp add: strip_def lstrip_def)

lemma strip_rstrip: "strip (rstrip xs) = strip xs"
  by (simp add: strip_def lstrip_rstrip rstrip_idem)

lemma set_lstrip: "set (lstrip K) \<subseteq> set K"
  by (simp add: lstrip_def set_dropWhileD subsetI)

lemma store_line_kv:
  assumes "colon \<notin> set K"
  shows "store_line c (strip (K @ colon # V)) = Inr (AList.update (strip K) (Str (strip V)) c)"
proof -
  have k: "colon \<notin> set (lstrip K)" using assms set_lstrip by blast
  then have "takeWhile (\<lambda>c. c \<noteq> colon) (lstrip K @ colon # rstrip V) = lstrip K"
    by (subst takeWhile_append2) auto
  moreover from k have "dropWhile (\<lambda>c. c \<noteq> colon) (lstrip K @ colon # rstrip V) = colon # rstrip V"
    by (simp add: dropWhile_append)
  ultimately show ?thesis
    by (simp add: store_line_def split_colon_def strip_colon strip_lstrip strip_rstrip)
qed


lemma set_strip: "set (strip s) \<subseteq> set s"
proof -
  have "set (rstrip t) \<subseteq> set t" for t
    unfolding rstrip_def using set_dropWhileD [of _ isspace "rev t"] by auto
  with set_lstrip show ?thesis unfolding strip_def by blast
qed

lemma store_line_first_colon:
  assumes "colon \<in> set (strip raw)"
  shows "store_line c (strip raw) =
           Inr (AList.update (strip (takeWhile (\<lambda>x. x \<noteq> colon) raw))
                  (Str (strip (tl (dropWhile (\<lambda>x. x \<noteq> colon) raw)))) c)"
proof -
  from assms set_strip have mem: "colon \<in> set raw" by blast
  define K where "K = takeWhile (\<lambda>x. x \<noteq> colon) raw"
  define V where "V = tl (dropWhile (\<lambda>x. x \<noteq> colon) raw)"
  from mem have "dropWhile (\<lambda>x. x \<noteq> colon) raw \<noteq> []"
    by (simp add: dropWhile_eq_Nil_conv)
  moreover have "hd (dropWhile (\<lambda>x. x \<noteq> colon) raw) = colon"
    using mem hd_dropWhile [of "\<lambda>x. x \<noteq> colon" raw] calculation by auto
  ultimately have "dropWhile (\<lambda>x. x \<noteq> colon) raw = colon # V"
    unfolding V_def by (cases "dropWhile (\<lambda>x. x \<noteq> colon) raw") auto
  then have raw: "raw = K @ colon # V"
    unfolding K_def using takeWhile_dropWhile_id [of "\<lambda>x. x \<noteq> colon" raw] by simp
  have "colon \<notin> set K"
    unfolding K_def using set_takeWhileD by fastforce
  then have "store_line c (strip (K @ colon # V)) = Inr (AList.update (strip K) (Str (strip V)) c)"
    by (rule store_line_kv)
  with raw have "store_line c (strip raw) = Inr (AList.update (strip K) (Str (strip V)) c)"
    by simp
  then show ?thesis
    unfolding K_def V_def .
qed

lemma parse_paragraphs_st_eq:
  "parse_paragraphs_st c n ps =
     (case parse_paragraphs c ps of
        Inl ex \<Rightarrow> Inl ex
      | Inr c' \<Rightarrow> Inr (c', n + length (filter (\<lambda>p. strip p \<noteq> []) ps)))"
  by (induction ps arbitrary: c n) (auto simp: Let_def split: sum.splits)

lemma parse_paragraphs_append:
  "parse_paragraphs c (xs @ ys) =
     (case parse_paragraphs c xs of Inl ex \<Rightarrow> Inl ex | Inr c' \<Rightarrow> parse_paragraphs c' ys)"
  by (induction xs arbitrary: c) (auto simp: Let_def split: sum.splits)

lemma split_colon_two:
  "colon \<in> set line \<Longrightarrow> \<exists>k v. split_colon line = [k, v]"
  by (simp add: split_colon_def)

lemma store_line_error:
  assumes "store_line c line = Inl ex"
  shows "ex = AttributeError no_append \<and> colon \<notin> set line \<and> (\<exists>s. map_of c free_text = Some (Str s))"
proof (cases "colon \<in> set line")
  case True
  then show ?thesis using assms split_colon_two [OF True]
    by (auto simp: store_line_def)
next
  case False
  show ?thesis
  proof (cases "free_text \<in> fst ` set c")
    case True
    then show ?thesis using assms False
      by (auto simp: store_line_def map_of_eq_None_iff split: option.splits pyvalue.splits)
  next
    case absent: False
    then show ?thesis using assms False
      by (auto simp: store_line_def update_conv' split: option.splits pyvalue.splits)
  qed
qed

lemma parse_paragraphs_error:
  "parse_paragraphs c ps = Inl ex \<Longrightarrow> ex = AttributeError no_append"
  by (induction ps arbitrary: c) (auto simp: Let_def split: if_splits sum.splits dest: store_line_error)

lemma store_line_on_str:
  assumes "map_of c free_text = Some (Str s)"
  shows "colon \<notin> set line \<Longrightarrow> store_line c line = Inl (AttributeError no_append)"
    and "colon \<in> set line \<Longrightarrow> \<exists>c' s'. store_line c line = Inr c' \<and> map_of c' free_text = Some (Str s')"
proof -
  from assms have "free_text \<in> fst ` set c"
    by (metis map_of_eq_None_iff option.distinct(1))
  with assms show "colon \<notin> set line \<Longrightarrow> store_line c line = Inl (AttributeError no_append)"
    by (simp add: store_line_def)
  assume col: "colon \<in> set line"
  from split_colon_two [OF col] obtain k v where "split_colon line = [k, v]" by blast
  with col assms show "\<exists>c' s'. store_line c line = Inr c' \<and> map_of c' free_text = Some (Str s')"
    by (auto simp: store_line_def update_conv')
qed

lemma parse_paragraphs_on_str:
  assumes "map_of c free_text = Some (Str s)"
    and "\<exists>p\<in>set ps. strip p \<noteq> [] \<and> colon \<notin> set (strip p)"
  shows "parse_paragraphs c ps = Inl (AttributeError no_append)"
  using assms
proof (induction ps arbitrary: c s)
  case Nil
  then show ?case by simp
next
  case (Cons p ps)
  show ?case
  proof (cases "strip p = []")
    case True
    with Cons show ?thesis by auto
  next
    case nonblank: False
    show ?thesis
    proof (cases "colon \<in> set (strip p)")
      case False
      with nonblank store_line_on_str(1) [OF Cons.prems(1) False] show ?thesis by simp
    next
      case True
      from store_line_on_str(2) [OF Cons.prems(1) True]
      obtain c' s' where st: "store_line c (strip p) = Inr c'" "map_of c' free_text = Some (Str s')"
        by blast
      from Cons.prems(2) True have "\<exists>q\<in>set ps. strip q \<noteq> [] \<and> colon \<notin> set (strip q)" by auto
      from Cons.IH [OF st(2) this] st(1) nonblank show ?thesis by simp
    qed
  qed
qed

lemma reserved_key_then_free_text:
  assumes "colon \<notin> set K" and "strip K = free_text"
    and "strip l \<noteq> []" and "colon \<notin> set (strip l)"
  shows "parse_paragraphs c (ps1 @ (K @ colon # V) # ps2 @ l # ps3) = Inl (AttributeError no_append)"
proof (cases "parse_paragraphs c ps1")
  case (Inl ex)
  with parse_paragraphs_error [OF Inl] show ?thesis
    by (simp add: parse_paragraphs_append)
next
  case (Inr c1)
  have ne: "strip (K @ colon # V) \<noteq> []" by (simp add: strip_colon)
  have "parse_paragraphs c1 ((K @ colon # V) # ps2 @ l # ps3) =
          parse_paragraphs (AList.update free_text (Str (strip V)) c1) (ps2 @ l # ps3)"
    using ne store_line_kv [OF assms(1), of c1 V] assms(2) by simp
  also have "\<dots> = Inl (AttributeError no_append)"
    by (rule parse_paragraphs_on_str [where s = "strip V"]) (use assms in \<open>auto simp: update_conv'\<close>)
  finally show ?thesis using Inr by (simp add: parse_paragraphs_append)
qed


lemmas string_eval = ustr_def strip_def lstrip_def rstrip_def isspace_def colon_def sep_def
  extsep_def startswith_def endswith_def

lemmas loop_eval = store_line_def split_colon_def free_text_def

lemma parse_paragraphs_first_colon:
  assumes "colon \<in> set (strip raw)"
  shows "parse_paragraphs c (raw # rest) =
           parse_paragraphs
             (AList.update (strip (takeWhile (\<lambda>x. x \<noteq> colon) raw))
                (Str (strip (tl (dropWhile (\<lambda>x. x \<noteq> colon) raw)))) c) rest"
proof -
  from assms have "strip raw \<noteq> []" by auto
  then show ?thesis
    using store_line_first_colon [OF assms, of c] by simp
qed

text \<open>
  C1. A paragraph whose trimmed text contains a colon is split at the first colon only:
  the entry stored has the trimmed text left of that colon as key and the trimmed
  remainder, further colons included, as value. Both loops do so. The line
  "Note: call at 9:30" is stored under "Note" with value "call at 9:30".
\<close>

theorem first_colon_split:
  "(colon \<in> set (strip raw) \<longrightarrow>
      parse_paragraphs c (raw # rest) =
        parse_paragraphs
          (AList.update (strip (takeWhile (\<lambda>x. x \<noteq> colon) raw))
             (Str (strip (tl (dropWhile (\<lambda>x. x \<noteq> colon) raw)))) c) rest \<and>
      parse_paragraphs_st c n (raw # rest) =
        parse_paragraphs_st
          (AList.update (strip (takeWhile (\<lambda>x. x \<noteq> colon) raw))
             (Str (strip (tl (dropWhile (\<lambda>x. x \<noteq> colon) raw)))) c) (Suc n) rest) \<and>
   parse_paragraphs [] [ustr ''Note: call at 9:30''] =
     Inr [(ustr ''Note'', Str (ustr ''call at 9:30''))] \<and>
   parse_paragraphs_st [] 0 [ustr ''Note: call at 9:30''] =
     Inr ([(ustr ''Note'', Str (ustr ''call at 9:30''))], 1)"
proof (intro conjI impI)
  assume col: "colon \<in> set (strip raw)"
  then have ne: "strip raw \<noteq> []" by auto
  show "parse_paragraphs c (raw # rest) =
        parse_paragraphs
          (AList.update (strip (takeWhile (\<lambda>x. x \<noteq> colon) raw))
             (Str (strip (tl (dropWhile (\<lambda>x. x \<noteq> colon) raw)))) c) rest"
    by (rule parse_paragraphs_first_colon [OF col])
  show "parse_paragraphs_st c n (raw # rest) =
        parse_paragraphs_st
          (AList.update (strip (takeWhile (\<lambda>x. x \<noteq> colon) raw))
             (Str (strip (tl (dropWhile (\<lambda>x. x \<noteq> colon) raw)))) c) (Suc n) rest"
    using ne store_line_first_colon [OF col, of c] by simp
next
  show "parse_paragraphs [] [ustr ''Note: call at 9:30''] =
     Inr [(ustr ''Note'', Str (ustr ''call at 9:30''))]"
    by (simp add: string_eval loop_eval)
  show "parse_paragraphs_st [] 0 [ustr ''Note: call at 9:30''] =
     Inr ([(ustr ''Note'', Str (ustr ''call at 9:30''))], 1)"
    by (simp add: string_eval loop_eval)
qed

theorem first_colon_split_witness:
  "colon \<in> set (strip (ustr ''  Time : 9:30 '')) \<and>
   parse_paragraphs [] [ustr ''  Time : 9:30 ''] = Inr [(ustr ''Time'', Str (ustr ''9:30''))] \<and>
   parse_paragraphs_st [] 0 [ustr ''  Time : 9:30 ''] = Inr ([(ustr ''Time'', Str (ustr ''9:30''))], 1)"
proof -
  have h: "colon \<in> set (strip (ustr ''  Time : 9:30 ''))"
    by (simp add: string_eval)
  from first_colon_split [of "ustr ''  Time : 9:30 ''" "[]" "[]" 0] h
  have "parse_paragraphs [] [ustr ''  Time : 9:30 ''] =
          parse_paragraphs
            (AList.update (strip (takeWhile (\<lambda>x. x \<noteq> colon) (ustr ''  Time : 9:30 '')))
               (Str (strip (tl (dropWhile (\<lambda>x. x \<noteq> colon) (ustr ''  Time : 9:30 ''))))) []) []"
    and "parse_paragraphs_st [] 0 [ustr ''  Time : 9:30 ''] =
          parse_paragraphs_st
            (AList.update (strip (takeWhile (\<lambda>x. x \<noteq> colon) (ustr ''  Time : 9:30 '')))
               (Str (strip (tl (dropWhile (\<lambda>x. x \<noteq> colon) (ustr ''  Time : 9:30 ''))))) []) 1 []"
    by simp_all
  then show ?thesis
    using h by (simp add: string_eval)
qed

lemma sample_content:
  "parse_paragraphs [] [ustr ''Name: John Doe'', ustr '''', ustr ''Age: 30'', ustr ''likes hiking''] =
     Inr [(ustr ''Name'', Str (ustr ''John Doe'')), (ustr ''Age'', Str (ustr ''30'')),
          (ustr ''free_text'', Lst [ustr ''likes hiking''])]"
  by (simp add: string_eval loop_eval)

lemma update_absent:
  "map_of c k = None \<Longrightarrow> AList.update k v c = c @ [(k, v)]"
  by (induction c) (auto split: if_splits)

lemma update_last:
  "map_of c k = None \<Longrightarrow> AList.update k v' (c @ [(k, v)]) = c @ [(k, v')]"
  by (induction c) (auto split: if_splits)

lemma store_line_free:
  assumes "colon \<notin> set line"
  shows "map_of c free_text = None \<Longrightarrow> store_line c line = Inr (c @ [(free_text, Lst [line])])"
    and "map_of c free_text = Some (Lst xs) \<Longrightarrow>
           store_line c line = Inr (AList.update free_text (Lst (xs @ [line])) c)"
proof -
  assume none: "map_of c free_text = None"
  then have "free_text \<notin> fst ` set c" by (simp add: map_of_eq_None_iff)
  with none assms show "store_line c line = Inr (c @ [(free_text, Lst [line])])"
    by (simp add: store_line_def update_absent update_last map_add_def)
next
  assume some: "map_of c free_text = Some (Lst xs)"
  then have "free_text \<in> fst ` set c"
    by (metis map_of_eq_None_iff option.distinct(1))
  with some assms show "store_line c line = Inr (AList.update free_text (Lst (xs @ [line])) c)"
    by (simp add: store_line_def)
qed

lemma store_line_free_lookup:
  assumes "colon \<notin> set line" and "\<forall>s. map_of c free_text \<noteq> Some (Str s)"
  shows "\<exists>c'. store_line c line = Inr c' \<and>
           map_of c' free_text =
             Some (Lst ((case map_of c free_text of Some (Lst xs) \<Rightarrow> xs | _ \<Rightarrow> []) @ [line]))"
proof (cases "map_of c free_text")
  case None
  with store_line_free(1) [OF assms(1) None] show ?thesis
    by (simp add: map_add_def)
next
  case (Some v)
  with assms(2) obtain xs where v: "v = Lst xs" by (cases v) auto
  with Some store_line_free(2) [OF assms(1), of c xs] show ?thesis
    by (simp add: update_conv')
qed

text \<open>
  The lines of a document that go to the free text: the trimmed paragraphs that are not
  blank and hold no colon, in document order. When no key-value line uses the key
  "free_text", the loop leaves exactly these under that key.
\<close>

lemma free_text_accumulates:
  assumes "\<forall>p\<in>set ps. colon \<in> set (strip p) \<longrightarrow> strip (takeWhile (\<lambda>x. x \<noteq> colon) p) \<noteq> free_text"
    and "\<forall>s. map_of c free_text \<noteq> Some (Str s)"
  shows "\<exists>c'. parse_paragraphs c ps = Inr c' \<and>
           map_of c' free_text =
             (if filter (\<lambda>l. l \<noteq> [] \<and> colon \<notin> set l) (map strip ps) = [] then map_of c free_text
              else Some (Lst ((case map_of c free_text of Some (Lst xs) \<Rightarrow> xs | _ \<Rightarrow> [])
                                @ filter (\<lambda>l. l \<noteq> [] \<and> colon \<notin> set l) (map strip ps))))"
  using assms
proof (induction ps arbitrary: c)
  case Nil
  then show ?case by simp
next
  case (Cons p ps)
  from Cons.prems(1) have rest:
    "\<forall>p\<in>set ps. colon \<in> set (strip p) \<longrightarrow> strip (takeWhile (\<lambda>x. x \<noteq> colon) p) \<noteq> free_text"
    by simp
  show ?case
  proof (cases "strip p = []")
    case True
    then have f: "filter (\<lambda>l. l \<noteq> [] \<and> colon \<notin> set l) (map strip (p # ps)) =
        filter (\<lambda>l. l \<noteq> [] \<and> colon \<notin> set l) (map strip ps)"
      by simp
    from True have pe: "parse_paragraphs c (p # ps) = parse_paragraphs c ps"
      by simp
    show ?thesis
      unfolding f pe by (rule Cons.IH [OF rest Cons.prems(2)])
  next
    case nonblank: False
    show ?thesis
    proof (cases "colon \<in> set (strip p)")
      case True
      let ?c1 = "AList.update (strip (takeWhile (\<lambda>x. x \<noteq> colon) p))
                   (Str (strip (tl (dropWhile (\<lambda>x. x \<noteq> colon) p)))) c"
      from True have f: "filter (\<lambda>l. l \<noteq> [] \<and> colon \<notin> set l) (map strip (p # ps)) =
          filter (\<lambda>l. l \<noteq> [] \<and> colon \<notin> set l) (map strip ps)"
        by simp
      have pe: "parse_paragraphs c (p # ps) = parse_paragraphs ?c1 ps"
        by (rule parse_paragraphs_first_colon [OF True])
      from Cons.prems(1) True have key: "strip (takeWhile (\<lambda>x. x \<noteq> colon) p) \<noteq> free_text"
        by simp
      then have same: "map_of ?c1 free_text = map_of c free_text"
        by (simp add: update_conv')
      with Cons.prems(2) have "\<forall>s. map_of ?c1 free_text \<noteq> Some (Str s)" by simp
      from Cons.IH [OF rest this] show ?thesis
        unfolding f pe same .
    next
      case False
      from store_line_free_lookup [OF False Cons.prems(2)] obtain c1 where
        c1: "store_line c (strip p) = Inr c1"
        and look: "map_of c1 free_text =
          Some (Lst ((case map_of c free_text of Some (Lst xs) \<Rightarrow> xs | _ \<Rightarrow> []) @ [strip p]))"
        by blast
      from False nonblank have f: "filter (\<lambda>l. l \<noteq> [] \<and> colon \<notin> set l) (map strip (p # ps)) =
          strip p # filter (\<lambda>l. l \<noteq> [] \<and> colon \<notin> set l) (map strip ps)"
        by simp
      from c1 nonblank have pe: "parse_paragraphs c (p # ps) = parse_paragraphs c1 ps"
        by simp
      from look have "\<forall>s. map_of c1 free_text \<noteq> Some (Str s)" by simp
      from Cons.IH [OF rest this] obtain c' where
        c': "parse_paragraphs c1 ps = Inr c'"
        and m: "map_of c' free_text =
          (if filter (\<lambda>l. l \<noteq> [] \<and> colon \<notin> set l) (map strip ps) = [] then map_of c1 free_text
           else Some (Lst ((case map_of c1 free_text of Some (Lst xs) \<Rightarrow> xs | _ \<Rightarrow> [])
                             @ filter (\<lambda>l. l \<noteq> [] \<and> colon \<notin> set l) (map strip ps))))"
        by blast
      from m have "map_of c' free_text =
          Some (Lst ((case map_of c free_text of Some (Lst xs) \<Rightarrow> xs | _ \<Rightarrow> [])
                       @ strip p # filter (\<lambda>l. l \<noteq> [] \<and> colon \<notin> set l) (map strip ps)))"
        unfolding look by simp
      with c' show ?thesis
        unfolding f pe by simp
    qed
  qed
qed

text \<open>
  C2. A document whose paragraphs are "Name: John Doe", "", "Age: 30", "likes hiking" is
  parsed, by the batch parser and by the interactive one, into a record whose content is
  Name: John Doe, Age: 30, free_text: [likes hiking], in this order, and whose
  total_paragraphs is 4. In every document, both loops pass over a blank paragraph, store
  a paragraph with a colon under its key, and put a paragraph that is not blank and has
  no colon at the end of the list under "free_text", which they create with the first
  such paragraph. So a document in which no key-value line uses the key "free_text" is
  parsed into a record whose "free_text" holds all its non-blank colon-free paragraphs,
  trimmed, in the order met, and which has no "free_text" when there is none.
\<close>

theorem sample_document_record:
  "(\<not> startswith (path_basename doc_path) lock_marker \<and>
    Document e doc_path =
      Inr [ustr ''Name: John Doe'', ustr '''', ustr ''Age: 30'', ustr ''likes hiking''] \<longrightarrow>
      (\<exists>d. parse_doc_to_dict e doc_path = ([], Some d) \<and>
           content d = [(ustr ''Name'', Str (ustr ''John Doe'')), (ustr ''Age'', Str (ustr ''30'')),
                        (ustr ''free_text'', Lst [ustr ''likes hiking''])] \<and>
           total_paragraphs (metadata d) = 4)) \<and>
   (fst (validate_docx_file doc_file) \<and>
    docx_paragraphs doc_file =
      Inr [ustr ''Name: John Doe'', ustr '''', ustr ''Age: 30'', ustr ''likes hiking''] \<longrightarrow>
      (\<exists>d. parse_doc_to_dict_st clock doc_file = ([], Some d) \<and>
           content d = [(ustr ''Name'', Str (ustr ''John Doe'')), (ustr ''Age'', Str (ustr ''30'')),
                        (ustr ''free_text'', Lst [ustr ''likes hiking''])] \<and>
           total_paragraphs (metadata d) = 4)) \<and>
   (strip raw = [] \<longrightarrow>
      parse_paragraphs c (raw # rest) = parse_paragraphs c rest \<and>
      parse_paragraphs_st c n (raw # rest) = parse_paragraphs_st c n rest) \<and>
   (colon \<in> set (strip raw) \<longrightarrow>
      parse_paragraphs c (raw # rest) =
        parse_paragraphs
          (AList.update (strip (takeWhile (\<lambda>x. x \<noteq> colon) raw))
             (Str (strip (tl (dropWhile (\<lambda>x. x \<noteq> colon) raw)))) c) rest) \<and>
   (strip raw \<noteq> [] \<and> colon \<notin> set (strip raw) \<and> map_of c free_text = None \<longrightarrow>
      parse_paragraphs c (raw # rest) =
        parse_paragraphs (c @ [(free_text, Lst [strip raw])]) rest \<and>
      parse_paragraphs_st c n (raw # rest) =
        parse_paragraphs_st (c @ [(free_text, Lst [strip raw])]) (Suc n) rest) \<and>
   (strip raw \<noteq> [] \<and> colon \<notin> set (strip raw) \<and> map_of c free_text = Some (Lst xs) \<longrightarrow>
      parse_paragraphs c (raw # rest) =
        parse_paragraphs (AList.update free_text (Lst (xs @ [strip raw])) c) rest \<and>
      parse_paragraphs_st c n (raw # rest) =
        parse_paragraphs_st (AList.update free_text (Lst (xs @ [strip raw])) c) (Suc n) rest) \<and>
   ((\<forall>p\<in>set ps. colon \<in> set (strip p) \<longrightarrow>
        strip (takeWhile (\<lambda>x. x \<noteq> colon) p) \<noteq> free_text) \<longrightarrow>
      (\<not> startswith (path_basename doc_path) lock_marker \<and> Document e doc_path = Inr ps \<longrightarrow>
         (\<exists>d. parse_doc_to_dict e doc_path = ([], Some d) \<and>
              map_of (content d) free_text =
                (if filter (\<lambda>l. l \<noteq> [] \<and> colon \<notin> set l) (map strip ps) = [] then None
                 else Some (Lst (filter (\<lambda>l. l \<noteq> [] \<and> colon \<notin> set l) (map strip ps)))) \<and>
              total_paragraphs (metadata d) = length ps)) \<and>
      (fst (validate_docx_file doc_file) \<and> docx_paragraphs doc_file = Inr ps \<longrightarrow>
         (\<exists>d. snd (parse_doc_to_dict_st clock doc_file) = Some d \<and>
              map_of (content d) free_text =
                (if filter (\<lambda>l. l \<noteq> [] \<and> colon \<notin> set l) (map strip ps) = [] then None
                 else Some (Lst (filter (\<lambda>l. l \<noteq> [] \<and> colon \<notin> set l) (map strip ps)))) \<and>
              total_paragraphs (metadata d) = length ps)))"
proof -
  have s1: "\<not> startswith (path_basename doc_path) lock_marker \<and>
    Document e doc_path =
      Inr [ustr ''Name: John Doe'', ustr '''', ustr ''Age: 30'', ustr ''likes hiking''] \<longrightarrow>
      (\<exists>d. parse_doc_to_dict e doc_path = ([], Some d) \<and>
           content d = [(ustr ''Name'', Str (ustr ''John Doe'')), (ustr ''Age'', Str (ustr ''30'')),
                        (ustr ''free_text'', Lst [ustr ''likes hiking''])] \<and>
           total_paragraphs (metadata d) = 4)"
    by (simp add: parse_doc_to_dict_def sample_content del: parse_paragraphs.simps)
  have st: "parse_paragraphs_st [] 0
          [ustr ''Name: John Doe'', ustr '''', ustr ''Age: 30'', ustr ''likes hiking''] =
        Inr ([(ustr ''Name'', Str (ustr ''John Doe'')), (ustr ''Age'', Str (ustr ''30'')),
              (ustr ''free_text'', Lst [ustr ''likes hiking''])], 3)"
    unfolding parse_paragraphs_st_eq sample_content by (simp add: string_eval)
  have s2: "fst (validate_docx_file doc_file) \<and>
    docx_paragraphs doc_file =
      Inr [ustr ''Name: John Doe'', ustr '''', ustr ''Age: 30'', ustr ''likes hiking''] \<longrightarrow>
      (\<exists>d. parse_doc_to_dict_st clock doc_file = ([], Some d) \<and>
           content d = [(ustr ''Name'', Str (ustr ''John Doe'')), (ustr ''Age'', Str (ustr ''30'')),
                        (ustr ''free_text'', Lst [ustr ''likes hiking''])] \<and>
           total_paragraphs (metadata d) = 4)"
    using st
    by (cases "validate_docx_file doc_file")
       (simp add: parse_doc_to_dict_st_def del: parse_paragraphs_st.simps)
  have s3: "strip raw = [] \<longrightarrow>
      parse_paragraphs c (raw # rest) = parse_paragraphs c rest \<and>
      parse_paragraphs_st c n (raw # rest) = parse_paragraphs_st c n rest"
    by simp
  have s4: "colon \<in> set (strip raw) \<longrightarrow>
      parse_paragraphs c (raw # rest) =
        parse_paragraphs
          (AList.update (strip (takeWhile (\<lambda>x. x \<noteq> colon) raw))
             (Str (strip (tl (dropWhile (\<lambda>x. x \<noteq> colon) raw)))) c) rest"
    using parse_paragraphs_first_colon by blast
  have s5: "strip raw \<noteq> [] \<and> colon \<notin> set (strip raw) \<and> map_of c free_text = None \<longrightarrow>
      parse_paragraphs c (raw # rest) =
        parse_paragraphs (c @ [(free_text, Lst [strip raw])]) rest \<and>
      parse_paragraphs_st c n (raw # rest) =
        parse_paragraphs_st (c @ [(free_text, Lst [strip raw])]) (Suc n) rest"
    using store_line_free(1) [of "strip raw" c] by simp
  have s6: "strip raw \<noteq> [] \<and> colon \<notin> set (strip raw) \<and> map_of c free_text = Some (Lst xs) \<longrightarrow>
      parse_paragraphs c (raw # rest) =
        parse_paragraphs (AList.update free_text (Lst (xs @ [strip raw])) c) rest \<and>
      parse_paragraphs_st c n (raw # rest) =
        parse_paragraphs_st (AList.update free_text (Lst (xs @ [strip raw])) c) (Suc n) rest"
    using store_line_free(2) [of "strip raw" c xs] by simp
  have s7: "(\<forall>p\<in>set ps. colon \<in> set (strip p) \<longrightarrow>
        strip (takeWhile (\<lambda>x. x \<noteq> colon) p) \<noteq> free_text) \<longrightarrow>
      (\<not> startswith (path_basename doc_path) lock_marker \<and> Document e doc_path = Inr ps \<longrightarrow>
         (\<exists>d. parse_doc_to_dict e doc_path = ([], Some d) \<and>
              map_of (content d) free_text =
                (if filter (\<lambda>l. l \<noteq> [] \<and> colon \<notin> set l) (map strip ps) = [] then None
                 else Some (Lst (filter (\<lambda>l. l \<noteq> [] \<and> colon \<notin> set l) (map strip ps)))) \<and>
              total_paragraphs (metadata d) = length ps)) \<and>
      (fst (validate_docx_file doc_file) \<and> docx_paragraphs doc_file = Inr ps \<longrightarrow>
         (\<exists>d. snd (parse_doc_to_dict_st clock doc_file) = Some d \<and>
              map_of (content d) free_text =
                (if filter (\<lambda>l. l \<noteq> [] \<and> colon \<notin> set l) (map strip ps) = [] then None
                 else Some (Lst (filter (\<lambda>l. l \<noteq> [] \<and> colon \<notin> set l) (map strip ps)))) \<and>
              total_paragraphs (metadata d) = length ps))"
  proof (intro impI conjI)
    assume a: "\<forall>p\<in>set ps. colon \<in> set (strip p) \<longrightarrow>
        strip (takeWhile (\<lambda>x. x \<noteq> colon) p) \<noteq> free_text"
    from free_text_accumulates [OF a, of "[]"] obtain c' where
      c': "parse_paragraphs [] ps = Inr c'"
      and look: "map_of c' free_text =
                (if filter (\<lambda>l. l \<noteq> [] \<and> colon \<notin> set l) (map strip ps) = [] then None
                 else Some (Lst (filter (\<lambda>l. l \<noteq> [] \<and> colon \<notin> set l) (map strip ps))))"
      by auto
    {
      assume "\<not> startswith (path_basename doc_path) lock_marker \<and> Document e doc_path = Inr ps"
      with c' look show "\<exists>d. parse_doc_to_dict e doc_path = ([], Some d) \<and>
              map_of (content d) free_text =
                (if filter (\<lambda>l. l \<noteq> [] \<and> colon \<notin> set l) (map strip ps) = [] then None
                 else Some (Lst (filter (\<lambda>l. l \<noteq> [] \<and> colon \<notin> set l) (map strip ps)))) \<and>
              total_paragraphs (metadata d) = length ps"
        by (simp add: parse_doc_to_dict_def)
    }
    {
      assume "fst (validate_docx_file doc_file) \<and> docx_paragraphs doc_file = Inr ps"
      with c' look show "\<exists>d. snd (parse_doc_to_dict_st clock doc_file) = Some d \<and>
              map_of (content d) free_text =
                (if filter (\<lambda>l. l \<noteq> [] \<and> colon \<notin> set l) (map strip ps) = [] then None
                 else Some (Lst (filter (\<lambda>l. l \<noteq> [] \<and> colon \<notin> set l) (map strip ps)))) \<and>
              total_paragraphs (metadata d) = length ps"
        by (cases "validate_docx_file doc_file")
           (simp add: parse_doc_to_dict_st_def parse_paragraphs_st_eq)
    }
  qed
  from s1 s2 s3 s4 s5 s6 s7 show ?thesis by blast
qed

theorem sample_document_record_witness:
  "\<not> startswith (path_basename (ustr ''in/a.docx'')) lock_marker \<and>
   Document sample_env (ustr ''in/a.docx'') =
      Inr [ustr ''Name: John Doe'', ustr '''', ustr ''Age: 30'', ustr ''likes hiking''] \<and>
   fst (validate_docx_file sample_upload) \<and>
   docx_paragraphs sample_upload =
      Inr [ustr ''Name: John Doe'', ustr '''', ustr ''Age: 30'', ustr ''likes hiking''] \<and>
   (\<exists>d. parse_doc_to_dict sample_env (ustr ''in/a.docx'') = ([], Some d) \<and>
        content d = [(ustr ''Name'', Str (ustr ''John Doe'')), (ustr ''Age'', Str (ustr ''30'')),
                     (ustr ''free_text'', Lst [ustr ''likes hiking''])] \<and>
        total_paragraphs (metadata d) = 4) \<and>
   (\<exists>d. parse_doc_to_dict_st (ustr ''2024-05-01T10:00:00'') sample_upload = ([], Some d) \<and>
        content d = [(ustr ''Name'', Str (ustr ''John Doe'')), (ustr ''Age'', Str (ustr ''30'')),
                     (ustr ''free_text'', Lst [ustr ''likes hiking''])] \<and>
        total_paragraphs (metadata d) = 4) \<and>
   strip (ustr '' second '') \<noteq> [] \<and> colon \<notin> set (strip (ustr '' second '')) \<and>
   map_of [(ustr ''k'', Str (ustr ''v'')), (free_text, Lst [ustr ''first''])] free_text =
     Some (Lst [ustr ''first'']) \<and>
   parse_paragraphs [(ustr ''k'', Str (ustr ''v'')), (free_text, Lst [ustr ''first''])]
       [ustr '' second ''] =
     Inr [(ustr ''k'', Str (ustr ''v'')), (free_text, Lst [ustr ''first'', ustr ''second''])] \<and>
   colon \<notin> set (strip (ustr ''zebra'')) \<and> strip (ustr '''') = [] \<and>
   colon \<in> set (strip (ustr ''k: v'')) \<and>
   strip (takeWhile (\<lambda>x. x \<noteq> colon) (ustr ''k: v'')) \<noteq> free_text \<and>
   colon \<notin> set (strip (ustr ''apple'')) \<and>
   Document (sample_env\<lparr>Document := \<lambda>p. Inr [ustr ''zebra'', ustr '''', ustr ''k: v'', ustr ''apple'']\<rparr>)
     (ustr ''in/a.docx'') = Inr [ustr ''zebra'', ustr '''', ustr ''k: v'', ustr ''apple''] \<and>
   (\<exists>d. parse_doc_to_dict
          (sample_env\<lparr>Document := \<lambda>p. Inr [ustr ''zebra'', ustr '''', ustr ''k: v'', ustr ''apple'']\<rparr>)
          (ustr ''in/a.docx'') = ([], Some d) \<and>
        map_of (content d) free_text = Some (Lst [ustr ''zebra'', ustr ''apple'']))"
proof -
  let ?ps = "[ustr ''zebra'', ustr '''', ustr ''k: v'', ustr ''apple'']"
  let ?e = "sample_env\<lparr>Document := \<lambda>p. Inr ?ps\<rparr>"
  let ?c = "[(ustr ''k'', Str (ustr ''v'')), (free_text, Lst [ustr ''first''])]"
  have h1: "\<not> startswith (path_basename (ustr ''in/a.docx'')) lock_marker"
    by (simp add: string_eval path_basename_def lock_marker_def)
  have h2: "Document sample_env (ustr ''in/a.docx'') =
      Inr [ustr ''Name: John Doe'', ustr '''', ustr ''Age: 30'', ustr ''likes hiking'']"
    by (simp add: sample_env_def sample_paragraphs_def ustr_def)
  have h3: "fst (validate_docx_file sample_upload)"
    by (simp add: validate_docx_file_def sample_upload_def required_files_def ustr_def)
  have h4: "docx_paragraphs sample_upload =
      Inr [ustr ''Name: John Doe'', ustr '''', ustr ''Age: 30'', ustr ''likes hiking'']"
    by (simp add: sample_upload_def sample_paragraphs_def ustr_def)
  have h5: "strip (ustr '' second '') \<noteq> [] \<and> colon \<notin> set (strip (ustr '' second ''))"
    by (simp add: string_eval)
  have h6: "map_of ?c free_text = Some (Lst [ustr ''first''])"
    by (simp add: free_text_def ustr_def)
  have h7: "colon \<notin> set (strip (ustr ''zebra'')) \<and> strip (ustr '''') = [] \<and>
     colon \<in> set (strip (ustr ''k: v'')) \<and>
     strip (takeWhile (\<lambda>x. x \<noteq> colon) (ustr ''k: v'')) \<noteq> free_text \<and>
     colon \<notin> set (strip (ustr ''apple''))"
    by (simp add: string_eval free_text_def)
  then have h8: "\<forall>p\<in>set ?ps. colon \<in> set (strip p) \<longrightarrow>
        strip (takeWhile (\<lambda>x. x \<noteq> colon) p) \<noteq> free_text"
    by simp
  have h9: "Document ?e (ustr ''in/a.docx'') = Inr ?ps" by simp
  have fl: "filter (\<lambda>l. l \<noteq> [] \<and> colon \<notin> set l) (map strip ?ps) = [ustr ''zebra'', ustr ''apple'']"
    by (simp add: string_eval)
  note t = sample_document_record
  note t1 = t [of "ustr ''in/a.docx''" sample_env sample_upload "ustr ''2024-05-01T10:00:00''",
               THEN conjunct1]
  note t2 = t [of "ustr ''in/a.docx''" sample_env sample_upload "ustr ''2024-05-01T10:00:00''",
               THEN conjunct2, THEN conjunct1]
  note t6 = t [of _ _ _ _ "ustr '' second ''" ?c "[]" 0 "[ustr ''first'']",
               THEN conjunct2, THEN conjunct2, THEN conjunct2, THEN conjunct2, THEN conjunct2,
               THEN conjunct1]
  note t7 = t [of "ustr ''in/a.docx''" ?e _ _ _ _ _ _ _ ?ps,
               THEN conjunct2, THEN conjunct2, THEN conjunct2, THEN conjunct2, THEN conjunct2,
               THEN conjunct2]
  from t1 h1 h2 have r1: "\<exists>d. parse_doc_to_dict sample_env (ustr ''in/a.docx'') = ([], Some d) \<and>
        content d = [(ustr ''Name'', Str (ustr ''John Doe'')), (ustr ''Age'', Str (ustr ''30'')),
                     (ustr ''free_text'', Lst [ustr ''likes hiking''])] \<and>
        total_paragraphs (metadata d) = 4"
    by blast
  from t2 h3 h4 have r2: "\<exists>d. parse_doc_to_dict_st (ustr ''2024-05-01T10:00:00'') sample_upload = ([], Some d) \<and>
        content d = [(ustr ''Name'', Str (ustr ''John Doe'')), (ustr ''Age'', Str (ustr ''30'')),
                     (ustr ''free_text'', Lst [ustr ''likes hiking''])] \<and>
        total_paragraphs (metadata d) = 4"
    by blast
  from t6 h5 h6 have "parse_paragraphs ?c [ustr '' second ''] =
      parse_paragraphs (AList.update free_text (Lst ([ustr ''first''] @ [strip (ustr '' second '')])) ?c) []"
    by blast
  then have r3: "parse_paragraphs ?c [ustr '' second ''] =
     Inr [(ustr ''k'', Str (ustr ''v'')), (free_text, Lst [ustr ''first'', ustr ''second''])]"
    by (simp add: string_eval free_text_def)
  from t7 h8 h1 h9 have "\<exists>d. parse_doc_to_dict ?e (ustr ''in/a.docx'') = ([], Some d) \<and>
        map_of (content d) free_text =
          (if filter (\<lambda>l. l \<noteq> [] \<and> colon \<notin> set l) (map strip ?ps) = [] then None
           else Some (Lst (filter (\<lambda>l. l \<noteq> [] \<and> colon \<notin> set l) (map strip ?ps)))) \<and>
        total_paragraphs (metadata d) = length ?ps"
    by blast
  then obtain d where d: "parse_doc_to_dict ?e (ustr ''in/a.docx'') = ([], Some d)"
    and m: "map_of (content d) free_text =
          (if filter (\<lambda>l. l \<noteq> [] \<and> colon \<notin> set l) (map strip ?ps) = [] then None
           else Some (Lst (filter (\<lambda>l. l \<noteq> [] \<and> colon \<notin> set l) (map strip ?ps))))"
    by blast
  from m have "map_of (content d) free_text = Some (Lst [ustr ''zebra'', ustr ''apple''])"
    unfolding fl by simp
  with d have r4: "\<exists>d. parse_doc_to_dict ?e (ustr ''in/a.docx'') = ([], Some d) \<and>
        map_of (content d) free_text = Some (Lst [ustr ''zebra'', ustr ''apple''])"
    by blast
  from h1 h2 h3 h4 h5 h6 h7 h9 r1 r2 r3 r4 show ?thesis by blast
qed

section \<open>The parsers\<close>

lemma reserved_key_then_free_text_st:
  assumes "colon \<notin> set K" and "strip K = free_text"
    and "strip l \<noteq> []" and "colon \<notin> set (strip l)"
  shows "parse_paragraphs_st c n (ps1 @ (K @ colon # V) # ps2 @ l # ps3) =
           Inl (AttributeError no_append)"
  unfolding parse_paragraphs_st_eq reserved_key_then_free_text [OF assms] by simp

text \<open>
  C10. Whenever a key-value paragraph whose key is "free_text" is followed, anywhere
  later in the document, by a non-blank paragraph without a colon, the loop raises
  AttributeError, the handler of the parser catches it, and the parser returns None with
  one error line: no record is produced, in the batch parser and in the interactive one.
\<close>

theorem reserved_key_fails_document:
  assumes "colon \<notin> set K" and "strip K = free_text"
    and "strip l \<noteq> []" and "colon \<notin> set (strip l)"
  shows "(\<not> startswith (path_basename doc_path) lock_marker \<and>
          Document e doc_path = Inr (ps1 @ (K @ colon # V) # ps2 @ l # ps3) \<longrightarrow>
            parse_paragraphs [] (ps1 @ (K @ colon # V) # ps2 @ l # ps3) =
              Inl (AttributeError no_append) \<and>
            parse_doc_to_dict e doc_path = ([Error_processing doc_path no_append], None)) \<and>
         (fst (validate_docx_file doc_file) \<and>
          docx_paragraphs doc_file = Inr (ps1 @ (K @ colon # V) # ps2 @ l # ps3) \<longrightarrow>
            parse_doc_to_dict_st clock doc_file =
              ([st_error (ustr ''Error processing '' @ getattr_name doc_file (ustr ''document'')
                  @ ustr '': '' @ no_append)], None))"
proof (intro conjI impI)
  assume a: "\<not> startswith (path_basename doc_path) lock_marker \<and>
          Document e doc_path = Inr (ps1 @ (K @ colon # V) # ps2 @ l # ps3)"
  show "parse_paragraphs [] (ps1 @ (K @ colon # V) # ps2 @ l # ps3) =
              Inl (AttributeError no_append)"
    by (rule reserved_key_then_free_text [OF assms])
  with a show "parse_doc_to_dict e doc_path = ([Error_processing doc_path no_append], None)"
    by (simp add: parse_doc_to_dict_def)
next
  assume a: "fst (validate_docx_file doc_file) \<and>
          docx_paragraphs doc_file = Inr (ps1 @ (K @ colon # V) # ps2 @ l # ps3)"
  with reserved_key_then_free_text_st [OF assms, of "[]" 0 ps1 V ps2 ps3]
  show "parse_doc_to_dict_st clock doc_file =
              ([st_error (ustr ''Error processing '' @ getattr_name doc_file (ustr ''document'')
                  @ ustr '': '' @ no_append)], None)"
    by (cases "validate_docx_file doc_file") (simp add: parse_doc_to_dict_st_def)
qed

theorem reserved_key_fails_document_witness:
  "colon \<notin> set (ustr ''free_text'') \<and> strip (ustr ''free_text'') = free_text \<and>
   strip (ustr ''hello'') \<noteq> [] \<and> colon \<notin> set (strip (ustr ''hello'')) \<and>
   \<not> startswith (path_basename (ustr ''in/a.docx'')) lock_marker \<and>
   Document (sample_env\<lparr>Document := \<lambda>p. Inr [ustr ''free_text: note'', ustr ''hello'']\<rparr>)
     (ustr ''in/a.docx'') = Inr [ustr ''free_text: note'', ustr ''hello''] \<and>
   parse_doc_to_dict (sample_env\<lparr>Document := \<lambda>p. Inr [ustr ''free_text: note'', ustr ''hello'']\<rparr>)
     (ustr ''in/a.docx'') = ([Error_processing (ustr ''in/a.docx'') no_append], None) \<and>
   fst (validate_docx_file
          (sample_upload\<lparr>docx_paragraphs := Inr [ustr ''free_text: note'', ustr ''hello'']\<rparr>)) \<and>
   snd (parse_doc_to_dict_st (ustr ''2024-05-01T10:00:00'')
          (sample_upload\<lparr>docx_paragraphs := Inr [ustr ''free_text: note'', ustr ''hello'']\<rparr>)) = None"
proof -
  have h1: "colon \<notin> set (ustr ''free_text'')" by (simp add: string_eval)
  have h2: "strip (ustr ''free_text'') = free_text" by (simp add: string_eval free_text_def)
  have h3: "strip (ustr ''hello'') \<noteq> []" by (simp add: string_eval)
  have h4: "colon \<notin> set (strip (ustr ''hello''))" by (simp add: string_eval)
  have h5: "\<not> startswith (path_basename (ustr ''in/a.docx'')) lock_marker"
    by (simp add: string_eval path_basename_def lock_marker_def)
  have h6: "fst (validate_docx_file
          (sample_upload\<lparr>docx_paragraphs := Inr [ustr ''free_text: note'', ustr ''hello'']\<rparr>))"
    by (simp add: validate_docx_file_def sample_upload_def required_files_def ustr_def)
  have split: "ustr ''free_text: note'' = ustr ''free_text'' @ colon # ustr '' note''"
    by (simp add: ustr_def colon_def)
  from reserved_key_fails_document [OF h1 h2 h3 h4,
      of "ustr ''in/a.docx''"
         "sample_env\<lparr>Document := \<lambda>p. Inr [ustr ''free_text: note'', ustr ''hello'']\<rparr>"
         "[]" "ustr '' note''" "[]" "[]"
         "sample_upload\<lparr>docx_paragraphs := Inr [ustr ''free_text: note'', ustr ''hello'']\<rparr>"
         "ustr ''2024-05-01T10:00:00''"]
    h5 h6 split
  have "parse_doc_to_dict (sample_env\<lparr>Document := \<lambda>p. Inr [ustr ''free_text: note'', ustr ''hello'']\<rparr>)
     (ustr ''in/a.docx'') = ([Error_processing (ustr ''in/a.docx'') no_append], None)"
    and "snd (parse_doc_to_dict_st (ustr ''2024-05-01T10:00:00'')
          (sample_upload\<lparr>docx_paragraphs := Inr [ustr ''free_text: note'', ustr ''hello'']\<rparr>)) = None"
    by simp_all
  with h1 h2 h3 h4 h5 h6 show ?thesis by simp
qed

lemma validate_missing:
  assumes "zip_namelist doc_file = Inr zip_contents"
    and "first_missing required_files zip_contents = Some required_file"
  shows "parse_doc_to_dict_st clock doc_file =
           ([st_error (getattr_name doc_file (ustr ''File'') @ ustr '': ''
               @ ustr ''Missing required file: '' @ required_file)], None)"
  using assms by (simp add: parse_doc_to_dict_st_def validate_docx_file_def)

lemma invalid_package_rejected_st:
  "(zip_namelist doc_file = Inl (BadZipFile m) \<longrightarrow>
      parse_doc_to_dict_st clock doc_file =
        ([st_error (getattr_name doc_file (ustr ''File'') @ ustr '': ''
            @ ustr ''File is not a valid ZIP/DOCX file'')], None)) \<and>
   (zip_namelist doc_file = Inl ex \<longrightarrow>
      fst (validate_docx_file doc_file) = False \<and>
      snd (parse_doc_to_dict_st clock doc_file) = None) \<and>
   (zip_namelist doc_file = Inr zip_contents \<and> ustr ''word/document.xml'' \<notin> set zip_contents \<longrightarrow>
      parse_doc_to_dict_st clock doc_file =
        ([st_error (getattr_name doc_file (ustr ''File'') @ ustr '': ''
            @ ustr ''Missing required file: '' @ ustr ''word/document.xml'')], None)) \<and>
   (zip_namelist doc_file = Inr zip_contents \<and> ustr ''word/document.xml'' \<in> set zip_contents \<and>
    ustr ''[Content_Types].xml'' \<notin> set zip_contents \<longrightarrow>
      parse_doc_to_dict_st clock doc_file =
        ([st_error (getattr_name doc_file (ustr ''File'') @ ustr '': ''
            @ ustr ''Missing required file: '' @ ustr ''[Content_Types].xml'')], None))"
proof (intro conjI impI)
  assume "zip_namelist doc_file = Inl (BadZipFile m)"
  then show "parse_doc_to_dict_st clock doc_file =
        ([st_error (getattr_name doc_file (ustr ''File'') @ ustr '': ''
            @ ustr ''File is not a valid ZIP/DOCX file'')], None)"
    by (simp add: parse_doc_to_dict_st_def validate_docx_file_def)
next
  assume a: "zip_namelist doc_file = Inl ex"
  then show "fst (validate_docx_file doc_file) = False"
    by (simp add: validate_docx_file_def)
  from a show "snd (parse_doc_to_dict_st clock doc_file) = None"
    by (simp add: parse_doc_to_dict_st_def validate_docx_file_def)
next
  assume a: "zip_namelist doc_file = Inr zip_contents \<and> ustr ''word/document.xml'' \<notin> set zip_contents"
  then have "first_missing required_files zip_contents = Some (ustr ''word/document.xml'')"
    by (simp add: required_files_def)
  with a show "parse_doc_to_dict_st clock doc_file =
        ([st_error (getattr_name doc_file (ustr ''File'') @ ustr '': ''
            @ ustr ''Missing required file: '' @ ustr ''word/document.xml'')], None)"
    using validate_missing by blast
next
  assume a: "zip_namelist doc_file = Inr zip_contents \<and> ustr ''word/document.xml'' \<in> set zip_contents \<and>
    ustr ''[Content_Types].xml'' \<notin> set zip_contents"
  then have "first_missing required_files zip_contents = Some (ustr ''[Content_Types].xml'')"
    by (simp add: required_files_def)
  with a show "parse_doc_to_dict_st clock doc_file =
        ([st_error (getattr_name doc_file (ustr ''File'') @ ustr '': ''
            @ ustr ''Missing required file: '' @ ustr ''[Content_Types].xml'')], None)"
    using validate_missing by blast
qed


text \<open>
  C4 as the code has it. The interactive parser validates the upload before it parses the
  document: when the upload is not a ZIP package (BadZipFile), when any other exception
  is raised during the check, or when word/document.xml or [Content_Types].xml is not
  among the entries, it returns None with one error message, whatever the document would
  have held; for a missing entry the message names that entry, the first one missing in
  the order word/document.xml, [Content_Types].xml. The batch parser makes no such check:
  it hands the path to Document at once. When Document raises, it prints
  "Error processing", the path and the text of that exception, and returns None; when
  Document reads the paragraphs and the loop ends, it returns a record, whatever entries
  the package holds.
\<close>

theorem invalid_package_rejected:
  "(zip_namelist doc_file = Inl (BadZipFile m) \<longrightarrow>
      parse_doc_to_dict_st clock doc_file =
        ([st_error (getattr_name doc_file (ustr ''File'') @ ustr '': ''
            @ ustr ''File is not a valid ZIP/DOCX file'')], None)) \<and>
   (zip_namelist doc_file = Inl ex \<longrightarrow>
      fst (validate_docx_file doc_file) = False \<and>
      snd (parse_doc_to_dict_st clock doc_file) = None) \<and>
   (zip_namelist doc_file = Inr zip_contents \<and> ustr ''word/document.xml'' \<notin> set zip_contents \<longrightarrow>
      parse_doc_to_dict_st clock doc_file =
        ([st_error (getattr_name doc_file (ustr ''File'') @ ustr '': ''
            @ ustr ''Missing required file: '' @ ustr ''word/document.xml'')], None)) \<and>
   (zip_namelist doc_file = Inr zip_contents \<and> ustr ''word/document.xml'' \<in> set zip_contents \<and>
    ustr ''[Content_Types].xml'' \<notin> set zip_contents \<longrightarrow>
      parse_doc_to_dict_st clock doc_file =
        ([st_error (getattr_name doc_file (ustr ''File'') @ ustr '': ''
            @ ustr ''Missing required file: '' @ ustr ''[Content_Types].xml'')], None)) \<and>
   (\<not> startswith (path_basename doc_path) lock_marker \<and> Document e doc_path = Inl ex' \<longrightarrow>
      parse_doc_to_dict e doc_path = ([Error_processing doc_path (str_of ex')], None)) \<and>
   (\<not> startswith (path_basename doc_path) lock_marker \<and> Document e doc_path = Inr ps \<and>
    parse_paragraphs [] ps = Inr c \<longrightarrow>
      (\<exists>d. parse_doc_to_dict e doc_path = ([], Some d) \<and> content d = c))"
proof -
  have batch1: "\<not> startswith (path_basename doc_path) lock_marker \<and> Document e doc_path = Inl ex' \<longrightarrow>
      parse_doc_to_dict e doc_path = ([Error_processing doc_path (str_of ex')], None)"
    by (simp add: parse_doc_to_dict_def)
  have batch2: "\<not> startswith (path_basename doc_path) lock_marker \<and> Document e doc_path = Inr ps \<and>
    parse_paragraphs [] ps = Inr c \<longrightarrow>
      (\<exists>d. parse_doc_to_dict e doc_path = ([], Some d) \<and> content d = c)"
    by (simp add: parse_doc_to_dict_def)
  from invalid_package_rejected_st [of doc_file m clock ex zip_contents] batch1 batch2
  show ?thesis by blast
qed

theorem invalid_package_rejected_witness:
  "zip_namelist (sample_upload\<lparr>zip_namelist := Inl (BadZipFile (ustr ''File is not a zip file''))\<rparr>) =
     Inl (BadZipFile (ustr ''File is not a zip file'')) \<and>
   parse_doc_to_dict_st (ustr ''2024-05-01T10:00:00'')
       (sample_upload\<lparr>zip_namelist := Inl (BadZipFile (ustr ''File is not a zip file''))\<rparr>) =
     ([st_error (ustr ''person.docx: File is not a valid ZIP/DOCX file'')], None) \<and>
   zip_namelist (sample_upload\<lparr>zip_namelist := Inr [ustr ''[Content_Types].xml'']\<rparr>) =
     Inr [ustr ''[Content_Types].xml''] \<and>
   ustr ''word/document.xml'' \<notin> set [ustr ''[Content_Types].xml''] \<and>
   parse_doc_to_dict_st (ustr ''2024-05-01T10:00:00'')
       (sample_upload\<lparr>zip_namelist := Inr [ustr ''[Content_Types].xml'']\<rparr>) =
     ([st_error (ustr ''person.docx: Missing required file: word/document.xml'')], None) \<and>
   zip_namelist (sample_upload\<lparr>zip_namelist := Inr [ustr ''word/document.xml'']\<rparr>) =
     Inr [ustr ''word/document.xml''] \<and>
   ustr ''word/document.xml'' \<in> set [ustr ''word/document.xml''] \<and>
   ustr ''[Content_Types].xml'' \<notin> set [ustr ''word/document.xml''] \<and>
   parse_doc_to_dict_st (ustr ''2024-05-01T10:00:00'')
       (sample_upload\<lparr>zip_namelist := Inr [ustr ''word/document.xml'']\<rparr>) =
     ([st_error (ustr ''person.docx: Missing required file: [Content_Types].xml'')], None) \<and>
   \<not> startswith (path_basename (ustr ''in/broken/bad.docx'')) lock_marker \<and>
   Document sample_env (ustr ''in/broken/bad.docx'') =
     Inl (OtherException (ustr ''Package not found'')) \<and>
   parse_doc_to_dict sample_env (ustr ''in/broken/bad.docx'') =
     ([Error_processing (ustr ''in/broken/bad.docx'') (ustr ''Package not found'')], None)"
proof -
  have n: "getattr_name (sample_upload\<lparr>zip_namelist := z\<rparr>) (ustr ''File'') = ustr ''person.docx''" for z
    by (simp add: getattr_name_def sample_upload_def)
  have a1: "zip_namelist (sample_upload\<lparr>zip_namelist := Inl (BadZipFile (ustr ''File is not a zip file''))\<rparr>) =
     Inl (BadZipFile (ustr ''File is not a zip file''))" by simp
  have a2: "zip_namelist (sample_upload\<lparr>zip_namelist := Inr [ustr ''[Content_Types].xml'']\<rparr>) =
     Inr [ustr ''[Content_Types].xml''] \<and>
     ustr ''word/document.xml'' \<notin> set [ustr ''[Content_Types].xml'']"
    by (simp add: ustr_def)
  have a3: "zip_namelist (sample_upload\<lparr>zip_namelist := Inr [ustr ''word/document.xml'']\<rparr>) =
     Inr [ustr ''word/document.xml''] \<and>
     ustr ''word/document.xml'' \<in> set [ustr ''word/document.xml''] \<and>
     ustr ''[Content_Types].xml'' \<notin> set [ustr ''word/document.xml'']"
    by (simp add: ustr_def)
  note t = invalid_package_rejected [where clock = "ustr ''2024-05-01T10:00:00''"]
  from t [of "sample_upload\<lparr>zip_namelist := Inl (BadZipFile (ustr ''File is not a zip file''))\<rparr>"
            "ustr ''File is not a zip file''"] a1
  have r1: "parse_doc_to_dict_st (ustr ''2024-05-01T10:00:00'')
       (sample_upload\<lparr>zip_namelist := Inl (BadZipFile (ustr ''File is not a zip file''))\<rparr>) =
     ([st_error (ustr ''person.docx: File is not a valid ZIP/DOCX file'')], None)"
    by (simp add: n) (simp add: ustr_def)
  from t [of "sample_upload\<lparr>zip_namelist := Inr [ustr ''[Content_Types].xml'']\<rparr>" _ _
            "[ustr ''[Content_Types].xml'']"] a2
  have r2: "parse_doc_to_dict_st (ustr ''2024-05-01T10:00:00'')
       (sample_upload\<lparr>zip_namelist := Inr [ustr ''[Content_Types].xml'']\<rparr>) =
     ([st_error (ustr ''person.docx: Missing required file: word/document.xml'')], None)"
    by (simp add: n) (simp add: ustr_def)
  from t [of "sample_upload\<lparr>zip_namelist := Inr [ustr ''word/document.xml'']\<rparr>" _ _
            "[ustr ''word/document.xml'']"] a3
  have r3: "parse_doc_to_dict_st (ustr ''2024-05-01T10:00:00'')
       (sample_upload\<lparr>zip_namelist := Inr [ustr ''word/document.xml'']\<rparr>) =
     ([st_error (ustr ''person.docx: Missing required file: [Content_Types].xml'')], None)"
    by (simp add: n) (simp add: ustr_def)
  have b1: "\<not> startswith (path_basename (ustr ''in/broken/bad.docx'')) lock_marker"
    by (simp add: string_eval path_basename_def lock_marker_def)
  have b2: "Document sample_env (ustr ''in/broken/bad.docx'') =
     Inl (OtherException (ustr ''Package not found''))"
    by (simp add: sample_env_def)
  from invalid_package_rejected [of _ _ _ _ _ "ustr ''in/broken/bad.docx''" sample_env
         "OtherException (ustr ''Package not found'')",
         THEN conjunct2, THEN conjunct2, THEN conjunct2, THEN conjunct2, THEN conjunct1] b1 b2
  have r4: "parse_doc_to_dict sample_env (ustr ''in/broken/bad.docx'') =
     ([Error_processing (ustr ''in/broken/bad.docx'') (ustr ''Package not found'')], None)"
    by simp
  from a1 a2 a3 r1 r2 r3 b1 b2 r4 show ?thesis by blast
qed

text \<open>
  A package without the entry word/document.xml, whose paragraphs the library reads: the
  interactive parser rejects it and names the entry, the batch parser returns a record
  for it. For a file the library cannot open, the batch parser reports the text of the
  library's exception.
\<close>

theorem batch_parser_does_not_validate:
  "zip_namelist odd_upload =
     Inr [ustr ''[Content_Types].xml'', ustr ''_rels/.rels'', ustr ''word/document2.xml''] \<and>
   parse_doc_to_dict_st (ustr ''2024-05-01T10:00:00'') odd_upload =
     ([st_error (ustr ''odd.docx: Missing required file: word/document.xml'')], None) \<and>
   Document odd_env (ustr ''in/odd.docx'') = docx_paragraphs odd_upload \<and>
   parse_doc_to_dict odd_env (ustr ''in/odd.docx'') = ([], Some (sample_data (ustr ''odd.docx''))) \<and>
   parse_doc_to_dict sample_env (ustr ''in/broken/bad.docx'') =
     ([Error_processing (ustr ''in/broken/bad.docx'') (ustr ''Package not found'')], None)"
proof -
  have z: "zip_namelist odd_upload =
     Inr [ustr ''[Content_Types].xml'', ustr ''_rels/.rels'', ustr ''word/document2.xml'']"
    by (simp add: odd_upload_def)
  have "first_missing required_files
          [ustr ''[Content_Types].xml'', ustr ''_rels/.rels'', ustr ''word/document2.xml''] =
        Some (ustr ''word/document.xml'')"
    by (simp add: required_files_def ustr_def)
  from validate_missing [OF z this, of "ustr ''2024-05-01T10:00:00''"]
  have st: "parse_doc_to_dict_st (ustr ''2024-05-01T10:00:00'') odd_upload =
     ([st_error (ustr ''odd.docx: Missing required file: word/document.xml'')], None)"
    by (simp add: getattr_name_def odd_upload_def ustr_def)
  have d: "Document odd_env (ustr ''in/odd.docx'') = docx_paragraphs odd_upload"
    by (simp add: odd_env_def)
  have b: "path_basename (ustr ''in/odd.docx'') = ustr ''odd.docx''"
    "path_basename (ustr ''in/broken/bad.docx'') = ustr ''bad.docx''"
    by (simp_all add: string_eval path_basename_def)
  have l: "\<not> startswith (ustr ''odd.docx'') lock_marker" "\<not> startswith (ustr ''bad.docx'') lock_marker"
    by (simp_all add: string_eval lock_marker_def)
  have ps: "Document odd_env (ustr ''in/odd.docx'') =
      Inr [ustr ''Name: John Doe'', ustr '''', ustr ''Age: 30'', ustr ''likes hiking'']"
    by (simp add: odd_env_def odd_upload_def sample_paragraphs_def ustr_def)
  have n: "now odd_env (ustr ''in/odd.docx'') = ustr ''2024-05-01T10:00:00''"
    by (simp add: odd_env_def sample_env_def)
  have batch: "parse_doc_to_dict odd_env (ustr ''in/odd.docx'') =
      ([], Some (sample_data (ustr ''odd.docx'')))"
    using b l ps n
    by (simp add: parse_doc_to_dict_def sample_content sample_data_def del: parse_paragraphs.simps)
  have "Document sample_env (ustr ''in/broken/bad.docx'') =
      Inl (OtherException (ustr ''Package not found''))"
    by (simp add: sample_env_def)
  with b l have bad: "parse_doc_to_dict sample_env (ustr ''in/broken/bad.docx'') =
     ([Error_processing (ustr ''in/broken/bad.docx'') (ustr ''Package not found'')], None)"
    by (simp add: parse_doc_to_dict_def)
  from z st d batch bad show ?thesis by blast
qed

lemma update_not_Nil: "AList.update k v c \<noteq> []"
  by (cases c) auto

lemma store_line_not_Nil: "store_line c line = Inr c' \<Longrightarrow> c' \<noteq> []"
  by (auto simp: store_line_def Let_def update_not_Nil
           split: if_splits list.splits option.splits pyvalue.splits)

lemma parse_paragraphs_keeps: "c \<noteq> [] \<Longrightarrow> parse_paragraphs c ps = Inr c' \<Longrightarrow> c' \<noteq> []"
proof (induction ps arbitrary: c)
  case Nil
  then show ?case by simp
next
  case (Cons p ps)
  then show ?case
    by (auto simp: Let_def split: if_splits sum.splits dest: store_line_not_Nil)
qed

lemma parse_paragraphs_empty_iff:
  "parse_paragraphs [] ps = Inr c' \<Longrightarrow> c' = [] \<longleftrightarrow> (\<forall>p\<in>set ps. strip p = [])"
proof (induction ps)
  case Nil
  then show ?case by simp
next
  case (Cons p ps)
  show ?case
  proof (cases "strip p = []")
    case True
    with Cons show ?thesis by simp
  next
    case False
    with Cons.prems obtain c1 where c1: "store_line [] (strip p) = Inr c1"
      and rest: "parse_paragraphs c1 ps = Inr c'"
      by (auto split: sum.splits)
    from store_line_not_Nil [OF c1] parse_paragraphs_keeps [OF _ rest] have "c' \<noteq> []" by blast
    with False show ?thesis by simp
  qed
qed

lemma parse_paragraphs_blank:
  "\<forall>p\<in>set ps. strip p = [] \<Longrightarrow> parse_paragraphs c ps = Inr c"
  by (induction ps) auto

lemma parse_doc_to_dict_st_Some:
  assumes "snd (parse_doc_to_dict_st clock doc_file) = Some d"
  shows "\<exists>ps c. fst (validate_docx_file doc_file) \<and> docx_paragraphs doc_file = Inr ps \<and>
           parse_paragraphs [] ps = Inr c \<and>
           parse_doc_to_dict_st clock doc_file =
             ((if c = [] then [st_warning (getattr_name doc_file (ustr ''File'') @ no_content_found)]
               else []),
              Some \<lparr>metadata =
                      \<lparr>source_file = getattr_name doc_file (ustr ''uploaded_file.docx''),
                       converted_at = clock,
                       total_paragraphs = length ps,
                       content_paragraphs = Some (length (filter (\<lambda>p. strip p \<noteq> []) ps))\<rparr>,
                    content = c\<rparr>)"
  using assms
  by (cases "validate_docx_file doc_file")
     (auto simp: parse_doc_to_dict_st_def parse_paragraphs_st_eq
           split: if_splits sum.splits simp del: parse_paragraphs_st.simps)

lemma parse_doc_to_dict_Some:
  assumes "snd (parse_doc_to_dict e doc_path) = Some d"
  shows "\<exists>ps c. \<not> startswith (path_basename doc_path) lock_marker \<and>
           Document e doc_path = Inr ps \<and> parse_paragraphs [] ps = Inr c \<and>
           parse_doc_to_dict e doc_path =
             ([], Some \<lparr>metadata =
                         \<lparr>source_file = path_basename doc_path,
                          converted_at = now e doc_path,
                          total_paragraphs = length ps,
                          content_paragraphs = None\<rparr>,
                       content = c\<rparr>)"
  using assms
  by (auto simp: parse_doc_to_dict_def split: if_splits sum.splits)

text \<open>
  C5 as the code has it. A document parsed with success gets total_paragraphs, the number
  of its paragraphs, blank ones included, from both parsers. The interactive parser also
  sets content_paragraphs to the number of paragraphs that are not blank after trimming;
  the batch parser sets no such counter.
\<close>

theorem paragraph_counters:
  "(snd (parse_doc_to_dict_st clock doc_file) = Some d \<longrightarrow>
      (\<exists>ps. docx_paragraphs doc_file = Inr ps \<and>
            total_paragraphs (metadata d) = length ps \<and>
            content_paragraphs (metadata d) = Some (length (filter (\<lambda>p. strip p \<noteq> []) ps)))) \<and>
   (snd (parse_doc_to_dict e doc_path) = Some d' \<longrightarrow>
      (\<exists>ps. Document e doc_path = Inr ps \<and>
            total_paragraphs (metadata d') = length ps \<and>
            content_paragraphs (metadata d') = None))"
proof (intro conjI impI)
  assume a: "snd (parse_doc_to_dict_st clock doc_file) = Some d"
  from parse_doc_to_dict_st_Some [OF a] a
  show "\<exists>ps. docx_paragraphs doc_file = Inr ps \<and>
            total_paragraphs (metadata d) = length ps \<and>
            content_paragraphs (metadata d) = Some (length (filter (\<lambda>p. strip p \<noteq> []) ps))"
    by auto
next
  assume a: "snd (parse_doc_to_dict e doc_path) = Some d'"
  from parse_doc_to_dict_Some [OF a] a
  show "\<exists>ps. Document e doc_path = Inr ps \<and>
            total_paragraphs (metadata d') = length ps \<and>
            content_paragraphs (metadata d') = None"
    by auto
qed

lemma sample_batch_parse:
  "parse_doc_to_dict sample_env (ustr ''in/a.docx'') =
     ([], Some \<lparr>metadata =
                 \<lparr>source_file = ustr ''a.docx'',
                  converted_at = ustr ''2024-05-01T10:00:00'',
                  total_paragraphs = 4,
                  content_paragraphs = None\<rparr>,
               content = [(ustr ''Name'', Str (ustr ''John Doe'')), (ustr ''Age'', Str (ustr ''30'')),
                          (ustr ''free_text'', Lst [ustr ''likes hiking''])]\<rparr>)"
proof -
  have "\<not> startswith (path_basename (ustr ''in/a.docx'')) lock_marker"
    by (simp add: string_eval path_basename_def lock_marker_def)
  moreover have "Document sample_env (ustr ''in/a.docx'') =
      Inr [ustr ''Name: John Doe'', ustr '''', ustr ''Age: 30'', ustr ''likes hiking'']"
    by (simp add: sample_env_def sample_paragraphs_def ustr_def)
  moreover have "path_basename (ustr ''in/a.docx'') = ustr ''a.docx''"
    by (simp add: string_eval path_basename_def)
  moreover have "now sample_env (ustr ''in/a.docx'') = ustr ''2024-05-01T10:00:00''"
    by (simp add: sample_env_def)
  ultimately show ?thesis
    by (simp add: parse_doc_to_dict_def sample_content del: parse_paragraphs.simps)
qed

lemma sample_upload_parse:
  "parse_doc_to_dict_st (ustr ''2024-05-01T10:00:00'') sample_upload =
     ([], Some \<lparr>metadata =
                 \<lparr>source_file = ustr ''person.docx'',
                  converted_at = ustr ''2024-05-01T10:00:00'',
                  total_paragraphs = 4,
                  content_paragraphs = Some 3\<rparr>,
               content = [(ustr ''Name'', Str (ustr ''John Doe'')), (ustr ''Age'', Str (ustr ''30'')),
                          (ustr ''free_text'', Lst [ustr ''likes hiking''])]\<rparr>)"
proof -
  have v: "validate_docx_file sample_upload = (True, ustr ''Valid DOCX file'')"
    by (simp add: validate_docx_file_def sample_upload_def required_files_def ustr_def)
  have d: "docx_paragraphs sample_upload =
      Inr [ustr ''Name: John Doe'', ustr '''', ustr ''Age: 30'', ustr ''likes hiking'']"
    by (simp add: sample_upload_def sample_paragraphs_def ustr_def)
  have n: "getattr_name sample_upload (ustr ''uploaded_file.docx'') = ustr ''person.docx''"
    by (simp add: getattr_name_def sample_upload_def)
  have p: "parse_paragraphs_st [] 0
          [ustr ''Name: John Doe'', ustr '''', ustr ''Age: 30'', ustr ''likes hiking''] =
        Inr ([(ustr ''Name'', Str (ustr ''John Doe'')), (ustr ''Age'', Str (ustr ''30'')),
              (ustr ''free_text'', Lst [ustr ''likes hiking''])], 3)"
    unfolding parse_paragraphs_st_eq sample_content by (simp add: string_eval)
  show ?thesis
    by (simp add: parse_doc_to_dict_st_def v d n p del: parse_paragraphs_st.simps)
qed

theorem paragraph_counters_witness:
  "snd (parse_doc_to_dict_st (ustr ''2024-05-01T10:00:00'') sample_upload) \<noteq> None \<and>
   snd (parse_doc_to_dict sample_env (ustr ''in/a.docx'')) \<noteq> None \<and>
   (\<exists>ps. docx_paragraphs sample_upload = Inr ps \<and>
      total_paragraphs (metadata (the (snd (parse_doc_to_dict_st (ustr ''2024-05-01T10:00:00'') sample_upload)))) = length ps \<and>
      content_paragraphs (metadata (the (snd (parse_doc_to_dict_st (ustr ''2024-05-01T10:00:00'') sample_upload)))) =
        Some (length (filter (\<lambda>p. strip p \<noteq> []) ps))) \<and>
   (\<exists>ps. Document sample_env (ustr ''in/a.docx'') = Inr ps \<and>
      total_paragraphs (metadata (the (snd (parse_doc_to_dict sample_env (ustr ''in/a.docx''))))) = length ps \<and>
      content_paragraphs (metadata (the (snd (parse_doc_to_dict sample_env (ustr ''in/a.docx''))))) = None)"
proof -
  obtain d where d: "snd (parse_doc_to_dict_st (ustr ''2024-05-01T10:00:00'') sample_upload) = Some d"
    by (simp add: sample_upload_parse)
  obtain d' where d': "snd (parse_doc_to_dict sample_env (ustr ''in/a.docx'')) = Some d'"
    by (simp add: sample_batch_parse)
  from paragraph_counters [of "ustr ''2024-05-01T10:00:00''" sample_upload d sample_env
         "ustr ''in/a.docx''" d'] d d'
  show ?thesis by simp
qed

text \<open>
  The batch parser returns a record for the sample document, and its metadata holds
  total_paragraphs only: there is no counter of the non-blank paragraphs.
\<close>

theorem batch_parser_one_counter:
  "snd (parse_doc_to_dict sample_env (ustr ''in/a.docx'')) =
     Some \<lparr>metadata =
             \<lparr>source_file = ustr ''a.docx'',
              converted_at = ustr ''2024-05-01T10:00:00'',
              total_paragraphs = 4,
              content_paragraphs = None\<rparr>,
           content = [(ustr ''Name'', Str (ustr ''John Doe'')), (ustr ''Age'', Str (ustr ''30'')),
                      (ustr ''free_text'', Lst [ustr ''likes hiking''])]\<rparr>"
  by (simp add: sample_batch_parse)

lemma empty_content_warning_st:
  "(snd (parse_doc_to_dict_st clock doc_file) = Some d \<longrightarrow>
      (\<exists>ps. docx_paragraphs doc_file = Inr ps \<and>
            (content d = [] \<longleftrightarrow> (\<forall>p\<in>set ps. strip p = [])) \<and>
            fst (parse_doc_to_dict_st clock doc_file) =
              (if content d = []
               then [st_warning (getattr_name doc_file (ustr ''File'') @ no_content_found)]
               else []))) \<and>
   (fst (validate_docx_file doc_file) \<and> docx_paragraphs doc_file = Inr ps \<and>
    (\<forall>p\<in>set ps. strip p = []) \<longrightarrow>
      parse_doc_to_dict_st clock doc_file =
        ([st_warning (getattr_name doc_file (ustr ''File'') @ no_content_found)],
         Some \<lparr>metadata =
                 \<lparr>source_file = getattr_name doc_file (ustr ''uploaded_file.docx''),
                  converted_at = clock,
                  total_paragraphs = length ps,
                  content_paragraphs = Some 0\<rparr>,
               content = []\<rparr>))"
proof (intro conjI impI)
  assume a: "snd (parse_doc_to_dict_st clock doc_file) = Some d"
  from parse_doc_to_dict_st_Some [OF a] obtain ps c where
    ps: "docx_paragraphs doc_file = Inr ps" and c: "parse_paragraphs [] ps = Inr c"
    and eq: "parse_doc_to_dict_st clock doc_file =
             ((if c = [] then [st_warning (getattr_name doc_file (ustr ''File'') @ no_content_found)]
               else []),
              Some \<lparr>metadata =
                      \<lparr>source_file = getattr_name doc_file (ustr ''uploaded_file.docx''),
                       converted_at = clock,
                       total_paragraphs = length ps,
                       content_paragraphs = Some (length (filter (\<lambda>p. strip p \<noteq> []) ps))\<rparr>,
                    content = c\<rparr>)"
    by blast
  from a eq have cd: "content d = c" by auto
  from parse_paragraphs_empty_iff [OF c] cd
  have "content d = [] \<longleftrightarrow> (\<forall>p\<in>set ps. strip p = [])" by simp
  moreover from eq cd have "fst (parse_doc_to_dict_st clock doc_file) =
              (if content d = []
               then [st_warning (getattr_name doc_file (ustr ''File'') @ no_content_found)]
               else [])" by simp
  ultimately show "\<exists>ps. docx_paragraphs doc_file = Inr ps \<and>
            (content d = [] \<longleftrightarrow> (\<forall>p\<in>set ps. strip p = [])) \<and>
            fst (parse_doc_to_dict_st clock doc_file) =
              (if content d = []
               then [st_warning (getattr_name doc_file (ustr ''File'') @ no_content_found)]
               else [])"
    using ps by blast
next
  assume a: "fst (validate_docx_file doc_file) \<and> docx_paragraphs doc_file = Inr ps \<and>
    (\<forall>p\<in>set ps. strip p = [])"
  then have blank: "\<forall>p\<in>set ps. strip p = []" by simp
  then have f: "filter (\<lambda>p. strip p \<noteq> []) ps = []" by (simp add: filter_empty_conv)
  from a show "parse_doc_to_dict_st clock doc_file =
        ([st_warning (getattr_name doc_file (ustr ''File'') @ no_content_found)],
         Some \<lparr>metadata =
                 \<lparr>source_file = getattr_name doc_file (ustr ''uploaded_file.docx''),
                  converted_at = clock,
                  total_paragraphs = length ps,
                  content_paragraphs = Some 0\<rparr>,
               content = []\<rparr>)"
    by (cases "validate_docx_file doc_file")
       (simp add: parse_doc_to_dict_st_def parse_paragraphs_st_eq
          parse_paragraphs_blank [OF blank] f del: parse_paragraphs_st.simps)
qed

text \<open>
  C9 as the code has it. A record returned by either parser has empty content exactly
  when every paragraph of the document is blank after trimming, and a document all of
  whose paragraphs are blank is parsed into a record with empty content: it is not a
  failure. The interactive parser shows its warning exactly then, as the only message;
  the batch parser returns the record and prints nothing.
\<close>

theorem empty_content_warning:
  "(snd (parse_doc_to_dict_st clock doc_file) = Some d \<longrightarrow>
      (\<exists>ps. docx_paragraphs doc_file = Inr ps \<and>
            (content d = [] \<longleftrightarrow> (\<forall>p\<in>set ps. strip p = [])) \<and>
            fst (parse_doc_to_dict_st clock doc_file) =
              (if content d = []
               then [st_warning (getattr_name doc_file (ustr ''File'') @ no_content_found)]
               else []))) \<and>
   (fst (validate_docx_file doc_file) \<and> docx_paragraphs doc_file = Inr ps \<and>
    (\<forall>p\<in>set ps. strip p = []) \<longrightarrow>
      parse_doc_to_dict_st clock doc_file =
        ([st_warning (getattr_name doc_file (ustr ''File'') @ no_content_found)],
         Some \<lparr>metadata =
                 \<lparr>source_file = getattr_name doc_file (ustr ''uploaded_file.docx''),
                  converted_at = clock,
                  total_paragraphs = length ps,
                  content_paragraphs = Some 0\<rparr>,
               content = []\<rparr>)) \<and>
   (snd (parse_doc_to_dict e doc_path) = Some d' \<longrightarrow>
      (\<exists>ps. Document e doc_path = Inr ps \<and>
            (content d' = [] \<longleftrightarrow> (\<forall>p\<in>set ps. strip p = [])) \<and>
            fst (parse_doc_to_dict e doc_path) = [])) \<and>
   (\<not> startswith (path_basename doc_path) lock_marker \<and> Document e doc_path = Inr ps \<and>
    (\<forall>p\<in>set ps. strip p = []) \<longrightarrow>
      parse_doc_to_dict e doc_path =
        ([], Some \<lparr>metadata =
                    \<lparr>source_file = path_basename doc_path,
                     converted_at = now e doc_path,
                     total_paragraphs = length ps,
                     content_paragraphs = None\<rparr>,
                  content = []\<rparr>))"
proof -
  have batch1: "snd (parse_doc_to_dict e doc_path) = Some d' \<longrightarrow>
      (\<exists>ps. Document e doc_path = Inr ps \<and>
            (content d' = [] \<longleftrightarrow> (\<forall>p\<in>set ps. strip p = [])) \<and>
            fst (parse_doc_to_dict e doc_path) = [])"
  proof
    assume a: "snd (parse_doc_to_dict e doc_path) = Some d'"
    from parse_doc_to_dict_Some [OF a] obtain ps c where
      ps: "Document e doc_path = Inr ps" and c: "parse_paragraphs [] ps = Inr c"
      and eq: "parse_doc_to_dict e doc_path =
             ([], Some \<lparr>metadata =
                         \<lparr>source_file = path_basename doc_path,
                          converted_at = now e doc_path,
                          total_paragraphs = length ps,
                          content_paragraphs = None\<rparr>,
                       content = c\<rparr>)"
      by blast
    from a eq have cd: "content d' = c" by auto
    from parse_paragraphs_empty_iff [OF c] cd
    have "content d' = [] \<longleftrightarrow> (\<forall>p\<in>set ps. strip p = [])" by simp
    with ps eq show "\<exists>ps. Document e doc_path = Inr ps \<and>
            (content d' = [] \<longleftrightarrow> (\<forall>p\<in>set ps. strip p = [])) \<and>
            fst (parse_doc_to_dict e doc_path) = []"
      by auto
  qed
  have batch2: "\<not> startswith (path_basename doc_path) lock_marker \<and> Document e doc_path = Inr ps \<and>
    (\<forall>p\<in>set ps. strip p = []) \<longrightarrow>
      parse_doc_to_dict e doc_path =
        ([], Some \<lparr>metadata =
                    \<lparr>source_file = path_basename doc_path,
                     converted_at = now e doc_path,
                     total_paragraphs = length ps,
                     content_paragraphs = None\<rparr>,
                  content = []\<rparr>)"
    by (simp add: parse_doc_to_dict_def parse_paragraphs_blank)
  from empty_content_warning_st [of clock doc_file d ps] batch1 batch2
  show ?thesis by blast
qed

theorem empty_content_warning_witness:
  "fst (validate_docx_file (sample_upload\<lparr>docx_paragraphs := Inr [ustr '''', ustr ''  '']\<rparr>)) \<and>
   docx_paragraphs (sample_upload\<lparr>docx_paragraphs := Inr [ustr '''', ustr ''  '']\<rparr>) =
     Inr [ustr '''', ustr ''  ''] \<and>
   strip (ustr '''') = [] \<and> strip (ustr ''  '') = [] \<and>
   parse_doc_to_dict_st (ustr ''2024-05-01T10:00:00'')
       (sample_upload\<lparr>docx_paragraphs := Inr [ustr '''', ustr ''  '']\<rparr>) =
     ([st_warning (ustr ''person.docx'' @ no_content_found)],
      Some \<lparr>metadata =
              \<lparr>source_file = ustr ''person.docx'',
               converted_at = ustr ''2024-05-01T10:00:00'',
               total_paragraphs = 2,
               content_paragraphs = Some 0\<rparr>,
            content = []\<rparr>) \<and>
   snd (parse_doc_to_dict_st (ustr ''2024-05-01T10:00:00'') sample_upload) \<noteq> None \<and>
   content (the (snd (parse_doc_to_dict_st (ustr ''2024-05-01T10:00:00'') sample_upload))) \<noteq> [] \<and>
   fst (parse_doc_to_dict_st (ustr ''2024-05-01T10:00:00'') sample_upload) = [] \<and>
   \<not> startswith (path_basename (ustr ''in/a.docx'')) lock_marker \<and>
   Document blank_env (ustr ''in/a.docx'') = Inr [ustr '''', ustr ''  ''] \<and>
   snd (parse_doc_to_dict blank_env (ustr ''in/a.docx'')) \<noteq> None \<and>
   content (the (snd (parse_doc_to_dict blank_env (ustr ''in/a.docx'')))) = [] \<and>
   fst (parse_doc_to_dict blank_env (ustr ''in/a.docx'')) = []"
proof -
  let ?f = "sample_upload\<lparr>docx_paragraphs := Inr [ustr '''', ustr ''  '']\<rparr>"
  have h1: "fst (validate_docx_file ?f)"
    by (simp add: validate_docx_file_def sample_upload_def required_files_def ustr_def)
  have h2: "docx_paragraphs ?f = Inr [ustr '''', ustr ''  '']" by simp
  have h3: "\<forall>p\<in>set [ustr '''', ustr ''  '']. strip p = []" by (simp add: string_eval)
  have n: "getattr_name ?f x = ustr ''person.docx''" for x
    by (simp add: getattr_name_def sample_upload_def)
  obtain d where d: "snd (parse_doc_to_dict_st (ustr ''2024-05-01T10:00:00'') sample_upload) = Some d"
    and cd: "content d \<noteq> []"
    by (simp add: sample_upload_parse)
  from empty_content_warning [of "ustr ''2024-05-01T10:00:00''" ?f _ "[ustr '''', ustr ''  '']"] h1 h2 h3
  have r1: "parse_doc_to_dict_st (ustr ''2024-05-01T10:00:00'') ?f =
     ([st_warning (ustr ''person.docx'' @ no_content_found)],
      Some \<lparr>metadata =
              \<lparr>source_file = ustr ''person.docx'',
               converted_at = ustr ''2024-05-01T10:00:00'',
               total_paragraphs = 2,
               content_paragraphs = Some 0\<rparr>,
            content = []\<rparr>)"
    by (simp add: n)
  from empty_content_warning [of "ustr ''2024-05-01T10:00:00''" sample_upload d] d cd
  have r2: "fst (parse_doc_to_dict_st (ustr ''2024-05-01T10:00:00'') sample_upload) = []"
    by auto
  have b1: "\<not> startswith (path_basename (ustr ''in/a.docx'')) lock_marker"
    by (simp add: string_eval path_basename_def lock_marker_def)
  have b2: "Document blank_env (ustr ''in/a.docx'') = Inr [ustr '''', ustr ''  '']"
    by (simp add: blank_env_def)
  from empty_content_warning [of _ _ _ "[ustr '''', ustr ''  '']" blank_env "ustr ''in/a.docx''",
         THEN conjunct2, THEN conjunct2, THEN conjunct2] b1 b2 h3
  have r3: "snd (parse_doc_to_dict blank_env (ustr ''in/a.docx'')) \<noteq> None \<and>
   content (the (snd (parse_doc_to_dict blank_env (ustr ''in/a.docx'')))) = [] \<and>
   fst (parse_doc_to_dict blank_env (ustr ''in/a.docx'')) = []"
    by simp
  from h1 h2 h3 r1 r2 d cd b1 b2 r3 show ?thesis by simp
qed

text \<open>
  The batch parser, on a document whose two paragraphs are blank, returns the record with
  empty content and prints nothing: there is no warning.
\<close>

theorem batch_blank_document_no_warning:
  "parse_doc_to_dict blank_env (ustr ''in/a.docx'') =
     ([], Some \<lparr>metadata =
                 \<lparr>source_file = ustr ''a.docx'',
                  converted_at = ustr ''2024-05-01T10:00:00'',
                  total_paragraphs = 2,
                  content_paragraphs = None\<rparr>,
               content = []\<rparr>)"
proof -
  have "path_basename (ustr ''in/a.docx'') = ustr ''a.docx''"
    by (simp add: string_eval path_basename_def)
  moreover have "\<not> startswith (ustr ''a.docx'') lock_marker"
    by (simp add: string_eval lock_marker_def)
  moreover have "Document blank_env (ustr ''in/a.docx'') = Inr [ustr '''', ustr ''  '']"
    by (simp add: blank_env_def)
  moreover have "now blank_env (ustr ''in/a.docx'') = ustr ''2024-05-01T10:00:00''"
    by (simp add: blank_env_def sample_env_def)
  moreover have "parse_paragraphs [] [ustr '''', ustr ''  ''] = Inr []"
    by (simp add: string_eval)
  ultimately show ?thesis
    by (simp add: parse_doc_to_dict_def del: parse_paragraphs.simps)
qed

section \<open>The batch conversion\<close>

lemma advances_refl: "advances r r [] [] []"
  by (simp add: advances_def)

lemma advances_trans:
  assumes "advances r r1 A B C" and "raised r1 = None" and "advances r1 r2 A' B' C'"
  shows "advances r r2 (A @ A') (B @ B') (C @ C')"
proof -
  from assms(1,2) have r1: "converted_files r1 = converted_files r @ A"
    "fs_ops r1 = fs_ops r @ B" "printed_lines r1 = printed_lines r @ C"
    by (auto simp: advances_def)
  from assms(3) obtain a b c where
    abc: "converted_files r2 = converted_files r1 @ a" "fs_ops r2 = fs_ops r1 @ b"
      "printed_lines r2 = printed_lines r1 @ c" "prefix a A'" "prefix b B'" "prefix c C'"
      "raised r2 = None \<longrightarrow> a = A' \<and> b = B' \<and> c = C'"
    by (auto simp: advances_def)
  show ?thesis
    unfolding advances_def
    by (rule exI [of _ "A @ a"], rule exI [of _ "B @ b"], rule exI [of _ "C @ c"])
       (use r1 abc in simp)
qed

lemma advances_stuck:
  assumes "advances r r1 A B C" and "raised r1 \<noteq> None"
  shows "advances r r1 (A @ A') (B @ B') (C @ C')"
proof -
  from assms(1) obtain a b c where
    abc: "converted_files r1 = converted_files r @ a" "fs_ops r1 = fs_ops r @ b"
      "printed_lines r1 = printed_lines r @ c" "prefix a A" "prefix b B" "prefix c C"
    by (auto simp: advances_def)
  show ?thesis
    unfolding advances_def
    by (rule exI [of _ a], rule exI [of _ b], rule exI [of _ c])
       (use abc assms(2) in \<open>auto simp: prefix_prefix\<close>)
qed

lemma convert_file_other:
  "\<not> endswith filename (ustr ''.docx'') \<Longrightarrow> convert_file e s d j root r filename = r"
  by (simp add: convert_file_def)

lemma convert_file_raised:
  "raised r \<noteq> None \<Longrightarrow> convert_file e s d j root r filename = r"
  by (simp add: convert_file_def)

lemma convert_files_raised:
  "raised r \<noteq> None \<Longrightarrow> convert_files e s d j root r files = r"
  by (induction files) (simp_all add: convert_file_raised)

lemma convert_walk_raised:
  "raised r \<noteq> None \<Longrightarrow> convert_walk e s d j r w = r"
  by (induction w) (auto simp: convert_files_raised)

lemma convert_file_advances:
  assumes "raised r = None" and "endswith filename (ustr ''.docx'')"
  shows "advances r (convert_file e s d j root r filename)
           (paths_for e d j (root, filename)) (ops_for e d j (root, filename))
           (lines_for e d j (root, filename))"
proof (cases "parse_doc_to_dict e (path_join root filename)")
  case (Pair out data)
  show ?thesis
  proof (cases data)
    case None
    with Pair assms show ?thesis
      by (simp add: convert_file_def advances_def paths_for_def ops_for_def lines_for_def)
  next
    case (Some dat)
    show ?thesis
    proof (cases "root = []")
      case True
      with Pair Some assms show ?thesis
        by (simp add: convert_file_def advances_def path_relpath_def lines_for_def)
    next
      case False
      let ?t = "path_join j (relpath_of e root d)"
      let ?jp = "json_path_of ?t filename"
      let ?conv = "Converted (path_join root filename) ?jp"
      have full: "paths_for e d j (root, filename) = [?jp]"
        "ops_for e d j (root, filename) = [Makedirs ?t, Write_json ?jp dat]"
        "lines_for e d j (root, filename) = out @ [?conv]"
        using Pair Some by (simp_all add: paths_for_def ops_for_def lines_for_def target_of_def)
      show ?thesis
      proof (cases "os_raises s (fs_ops r) (Makedirs ?t)")
        case mk: (Some ex)
        with Pair Some assms False show ?thesis
          by (simp add: convert_file_def advances_def path_relpath_def Let_def full)
      next
        case mk: None
        show ?thesis
        proof (cases "os_raises s (fs_ops r @ [Makedirs ?t]) (Write_json ?jp dat)")
          case wr: (Some ex)
          with mk Pair Some assms False show ?thesis
            by (simp add: convert_file_def advances_def path_relpath_def Let_def full)
        next
          case wr: None
          show ?thesis
          proof (cases "print_raises s ?conv")
            case pr: (Some ex)
            with wr mk Pair Some assms False show ?thesis
              by (simp add: convert_file_def advances_def path_relpath_def Let_def full)
          next
            case pr: None
            with wr mk Pair Some assms False show ?thesis
              by (simp add: convert_file_def advances_def path_relpath_def Let_def full)
          qed
        qed
      qed
    qed
  qed
qed

lemma visited_Cons: "visited ((root, dirs, files) # w) = visited [(root, dirs, files)] @ visited w"
  by (simp add: visited_def)

lemma visited_files_Cons:
  "visited [(root, dirs, filename # files)] =
     (if endswith filename (ustr ''.docx'') then [(root, filename)] else [])
       @ visited [(root, dirs, files)]"
  by (simp add: visited_def)

lemma convert_files_advances:
  assumes "raised r = None"
  shows "advances r (convert_files e s d j root r files)
           (concat (map (paths_for e d j) (visited [(root, dirs, files)])))
           (concat (map (ops_for e d j) (visited [(root, dirs, files)])))
           (concat (map (lines_for e d j) (visited [(root, dirs, files)])))"
  using assms
proof (induction files arbitrary: r)
  case Nil
  then show ?case by (simp add: visited_def advances_refl)
next
  case (Cons f files)
  show ?case
  proof (cases "endswith f (ustr ''.docx'')")
    case False
    with Cons show ?thesis
      by (simp add: visited_files_Cons convert_file_other)
  next
    case True
    let ?r1 = "convert_file e s d j root r f"
    have step: "advances r ?r1 (paths_for e d j (root, f)) (ops_for e d j (root, f))
                  (lines_for e d j (root, f))"
      by (rule convert_file_advances [OF Cons.prems True])
    show ?thesis
    proof (cases "raised ?r1 = None")
      case ok: True
      from advances_trans [OF step ok Cons.IH [OF ok]] True show ?thesis
        by (simp add: visited_files_Cons)
    next
      case abort: False
      from advances_stuck [OF step abort] True abort show ?thesis
        by (simp add: visited_files_Cons convert_files_raised)
    qed
  qed
qed

lemma convert_walk_advances:
  assumes "raised r = None"
  shows "advances r (convert_walk e s d j r w)
           (concat (map (paths_for e d j) (visited w)))
           (concat (map (ops_for e d j) (visited w)))
           (concat (map (lines_for e d j) (visited w)))"
  using assms
proof (induction w arbitrary: r)
  case Nil
  then show ?case by (simp add: visited_def advances_refl)
next
  case (Cons t w)
  obtain root dirs files where t: "t = (root, dirs, files)" by (cases t) auto
  let ?r1 = "convert_files e s d j root r files"
  have step: "advances r ?r1
           (concat (map (paths_for e d j) (visited [(root, dirs, files)])))
           (concat (map (ops_for e d j) (visited [(root, dirs, files)])))
           (concat (map (lines_for e d j) (visited [(root, dirs, files)])))"
    by (rule convert_files_advances [OF Cons.prems])
  show ?case
  proof (cases "raised ?r1 = None")
    case ok: True
    from advances_trans [OF step ok Cons.IH [OF ok]] show ?thesis
      unfolding t by (simp add: visited_Cons [of root dirs files w])
  next
    case abort: False
    from advances_stuck [OF step abort] abort show ?thesis
      unfolding t by (simp add: visited_Cons [of root dirs files w] convert_walk_raised)
  qed
qed

text \<open>
  Every run, aborted or not, has done an initial part of what the visited documents call
  for, and all of it when no exception was raised.
\<close>

lemma convert_folder_prefix:
  "prefix (converted_files (convert_folder e s d json_folder))
     (concat (map (paths_for e d (destination d json_folder)) (visited (walk e d)))) \<and>
   prefix (fs_ops (convert_folder e s d json_folder))
     (Makedirs (destination d json_folder)
        # concat (map (ops_for e d (destination d json_folder)) (visited (walk e d)))) \<and>
   prefix (printed_lines (convert_folder e s d json_folder))
     (concat (map (lines_for e d (destination d json_folder)) (visited (walk e d)))) \<and>
   (raised (convert_folder e s d json_folder) = None \<longrightarrow>
      converted_files (convert_folder e s d json_folder) =
        concat (map (paths_for e d (destination d json_folder)) (visited (walk e d))) \<and>
      fs_ops (convert_folder e s d json_folder) =
        Makedirs (destination d json_folder)
          # concat (map (ops_for e d (destination d json_folder)) (visited (walk e d))) \<and>
      printed_lines (convert_folder e s d json_folder) =
        concat (map (lines_for e d (destination d json_folder)) (visited (walk e d))))"
proof -
  let ?j = "destination d json_folder"
  let ?r0 = "\<lparr>converted_files = [], fs_ops = [Makedirs ?j], printed_lines = [], raised = None\<rparr>"
  show ?thesis
  proof (cases "?j = [] \<or> os_raises s [] (Makedirs ?j) \<noteq> None")
    case True
    then show ?thesis
      by (auto simp: convert_folder_def destination_def Let_def)
  next
    case False
    then have run: "convert_folder e s d json_folder = convert_walk e s d ?j ?r0 (walk e d)"
      by (auto simp: convert_folder_def destination_def Let_def)
    have "advances ?r0 (convert_walk e s d ?j ?r0 (walk e d))
           (concat (map (paths_for e d ?j) (visited (walk e d))))
           (concat (map (ops_for e d ?j) (visited (walk e d))))
           (concat (map (lines_for e d ?j) (visited (walk e d))))"
      by (rule convert_walk_advances) simp
    then show ?thesis
      unfolding run advances_def by auto
  qed
qed

lemmas convert_folder_run = convert_folder_prefix [THEN conjunct2, THEN conjunct2, THEN conjunct2, rule_format]

lemma convert_file_calm:
  assumes "raised r = None" and "root \<noteq> []"
    and "\<forall>before request. os_raises s before request = None"
    and "\<forall>line. print_raises s line = None"
  shows "raised (convert_file e s d j root r filename) = None"
  using assms
  by (cases "parse_doc_to_dict e (path_join root filename)")
     (auto simp: convert_file_def path_relpath_def Let_def split: option.splits)

lemma convert_files_calm:
  assumes "raised r = None" and "root \<noteq> []"
    and "\<forall>before request. os_raises s before request = None"
    and "\<forall>line. print_raises s line = None"
  shows "raised (convert_files e s d j root r files) = None"
  using assms(1)
proof (induction files arbitrary: r)
  case Nil
  then show ?case by simp
next
  case (Cons f files)
  from convert_file_calm [OF Cons.prems assms(2,3,4)] Cons.IH show ?case by simp
qed

lemma convert_walk_calm:
  assumes "raised r = None" and "\<forall>t\<in>set w. fst t \<noteq> []"
    and "\<forall>before request. os_raises s before request = None"
    and "\<forall>line. print_raises s line = None"
  shows "raised (convert_walk e s d j r w) = None"
  using assms(1,2)
proof (induction w arbitrary: r)
  case Nil
  then show ?case by simp
next
  case (Cons t w)
  obtain root dirs files where t: "t = (root, dirs, files)" by (cases t) auto
  with Cons.prems have "root \<noteq> []" by simp
  from convert_files_calm [OF Cons.prems(1) this assms(3,4)]
  have "raised (convert_files e s d j root r files) = None" .
  moreover from Cons.prems have "\<forall>t\<in>set w. fst t \<noteq> []" by simp
  ultimately show ?case unfolding t using Cons.IH by simp
qed

text \<open>
  A run is left by an exception only through the empty destination, an empty directory
  path of the walk, or a call that raises: never through a document that fails to parse.
\<close>

lemma convert_folder_calm:
  assumes "destination d json_folder \<noteq> []" and "\<forall>t\<in>set (walk e d). fst t \<noteq> []"
    and "\<forall>before request. os_raises s before request = None"
    and "\<forall>line. print_raises s line = None"
  shows "raised (convert_folder e s d json_folder) = None"
proof -
  let ?j = "destination d json_folder"
  let ?r0 = "\<lparr>converted_files = [], fs_ops = [Makedirs ?j], printed_lines = [], raised = None\<rparr>"
  have "convert_folder e s d json_folder = convert_walk e s d ?j ?r0 (walk e d)"
    using assms(1,3) by (auto simp: convert_folder_def destination_def Let_def)
  then show ?thesis
    using convert_walk_calm [OF _ assms(2,3,4), of ?r0 e d ?j] by simp
qed

lemma lines_for_one:
  "\<exists>l. lines_for e d j (root, filename) = [l] \<and> subject l = path_join root filename"
  by (auto simp: lines_for_def parse_doc_to_dict_def split: sum.splits)

lemma path_basename_join:
  assumes "sep \<notin> set filename"
  shows "path_basename (path_join root filename) = filename"
proof -
  have nostart: "\<not> startswith filename [sep]"
    using assms by (cases filename) (auto simp: startswith_def)
  have tw: "takeWhile (\<lambda>c. c \<noteq> sep) (rev filename) = rev filename"
    using assms by (auto simp: takeWhile_eq_all_conv)
  show ?thesis
  proof (cases "root = [] \<or> endswith root [sep]")
    case True
    then have "root = [] \<or> (\<exists>xs. root = xs @ [sep])"
      by (auto simp: endswith_def) (metis append_take_drop_id)
    then have "takeWhile (\<lambda>c. c \<noteq> sep) (rev filename @ rev root) = rev filename"
      using assms by (auto simp: takeWhile_append tw)
    with True nostart show ?thesis
      by (simp add: path_join_def path_basename_def)
  next
    case False
    have "takeWhile (\<lambda>c. c \<noteq> sep) (rev filename @ sep # rev root) = rev filename"
      using assms by (simp add: takeWhile_append tw)
    with False nostart show ?thesis
      by (simp add: path_join_def path_basename_def)
  qed
qed


lemma splitext_dots:
  assumes "\<forall>c\<in>set stem. c = extsep"
  shows "path_splitext (stem @ ustr ''.docx'') = (stem @ ustr ''.docx'', [])"
proof -
  have "sep \<notin> set stem" using assms by (auto simp: sep_def extsep_def)
  then have s: "rfind (stem @ ustr ''.docx'') sep = - 1"
    by (simp add: rfind_def ustr_def sep_def)
  have d: "rfind (stem @ ustr ''.docx'') extsep = int (length stem)"
    by (simp add: rfind_def ustr_def extsep_def)
  show ?thesis
    using assms by (auto simp: path_splitext_def s d)
qed

section \<open>The sample tree and the claims on conversion\<close>

lemmas path_eval = path_join_def path_basename_def normpath_def normpath_step_def abspath_def
  relpath_of_def path_relpath_def rfind_def path_splitext_def json_path_of_def curdir_def pardir_def
  lock_marker_def

lemma sample_parse_good:
  assumes "\<not> startswith (path_basename p) lock_marker" and "p \<noteq> ustr ''in/broken/bad.docx''"
  shows "parse_doc_to_dict sample_env p = ([], Some (sample_data (path_basename p)))"
proof -
  have "Document sample_env p =
      Inr [ustr ''Name: John Doe'', ustr '''', ustr ''Age: 30'', ustr ''likes hiking'']"
    using assms(2) by (simp add: sample_env_def sample_paragraphs_def ustr_def)
  moreover have "now sample_env p = ustr ''2024-05-01T10:00:00''"
    by (simp add: sample_env_def)
  ultimately show ?thesis
    using assms(1)
    by (simp add: parse_doc_to_dict_def sample_content sample_data_def del: parse_paragraphs.simps)
qed





lemma sample_visited:
  "visited (walk sample_env (ustr ''in'')) =
     [(ustr ''in'', ustr ''a.docx''), (ustr ''in'', ustr ''~$a.docx''),
      (ustr ''in/broken'', ustr ''bad.docx''), (ustr ''in/ok'', ustr ''b.docx'')]"
  by (simp add: visited_def sample_env_def string_eval)

lemma sample_joins:
  "path_join (ustr ''in'') (ustr ''a.docx'') = ustr ''in/a.docx''"
  "path_join (ustr ''in'') (ustr ''~$a.docx'') = ustr ''in/~$a.docx''"
  "path_join (ustr ''in/broken'') (ustr ''bad.docx'') = ustr ''in/broken/bad.docx''"
  "path_join (ustr ''in/ok'') (ustr ''b.docx'') = ustr ''in/ok/b.docx''"
  by (simp_all add: string_eval path_eval)



lemma sample_wf:
  "destination (ustr ''in'') (Some (ustr ''out'')) = ustr ''out''"
  "ustr ''out'' \<noteq> []"
  "\<forall>t\<in>set (walk sample_env (ustr ''in'')). fst t \<noteq> []"
  by (simp_all add: destination_def sample_env_def ustr_def)

lemma calm_never:
  "\<forall>before request. os_raises calm before request = None"
  "\<forall>line. print_raises calm line = None"
  by (simp_all add: calm_def)









text \<open>
  C6. Called without a destination, \<^verbatim>\<open>convert_single_file\<close> builds the output path with
  \<^verbatim>\<open>input_path.replace('.docx', '.json')\<close>, which replaces every occurrence of ".docx" in
  the path, not the extension alone: the document "in.docx.d/a.docx" is written to,
  and returned as, "in.json.d/a.json".
\<close>

theorem single_file_replaces_all_occurrences:
  "convert_single_file sample_env (ustr ''in.docx.d/a.docx'') None =
     ([], [Write_json (ustr ''in.json.d/a.json'') (sample_data (ustr ''a.docx''))],
      Some (ustr ''in.json.d/a.json''))"
proof -
  have "path_basename (ustr ''in.docx.d/a.docx'') = ustr ''a.docx''"
    by (simp add: string_eval path_eval)
  moreover have "\<not> startswith (ustr ''a.docx'') lock_marker"
    by (simp add: string_eval path_eval)
  moreover have "ustr ''in.docx.d/a.docx'' \<noteq> ustr ''in/broken/bad.docx''"
    by (simp add: ustr_def)
  ultimately have "parse_doc_to_dict sample_env (ustr ''in.docx.d/a.docx'') =
      ([], Some (sample_data (ustr ''a.docx'')))"
    using sample_parse_good [of "ustr ''in.docx.d/a.docx''"] by simp
  moreover have "replace (ustr ''in.docx.d/a.docx'') (ustr ''.docx'') (ustr ''.json'') =
      ustr ''in.json.d/a.json''"
    by (simp add: replace.simps string_eval)
  ultimately show ?thesis
    by (simp add: convert_single_file_def Let_def)
qed


lemma lock_parse:
  assumes "startswith filename lock_marker" and "sep \<notin> set filename"
  shows "parse_doc_to_dict e (path_join root filename) =
           ([Skipping_lock_file (path_join root filename)], None)"
  using assms by (simp add: parse_doc_to_dict_def path_basename_join)

lemma line_in_run:
  assumes "l \<in> set (concat (map (lines_for e d j) docs))"
  shows "\<exists>root filename. (root, filename) \<in> set docs \<and> path_join root filename = subject l \<and>
           lines_for e d j (root, filename) = [l]"
proof -
  from assms obtain doc where doc: "doc \<in> set docs" and l: "l \<in> set (lines_for e d j doc)"
    by auto
  obtain root filename where rf: "doc = (root, filename)" by (cases doc)
  from lines_for_one [of e d j root filename] l rf
  have "lines_for e d j (root, filename) = [l] \<and> subject l = path_join root filename"
    by auto
  with doc rf show ?thesis by auto
qed

lemma written_source:
  assumes "Write_json jp dat \<in> set (concat (map (ops_for e d j) docs))"
  shows "\<not> startswith (source_file (metadata dat)) lock_marker"
proof -
  from assms obtain root filename where
    "Write_json jp dat \<in> set (ops_for e d j (root, filename))"
    by auto
  then have "snd (parse_doc_to_dict e (path_join root filename)) = Some dat"
    by (auto simp: ops_for_def split: option.splits)
  from parse_doc_to_dict_Some [OF this] this show ?thesis by auto
qed

text \<open>
  C3. In a batch run, a file whose name begins with "~$" is skipped by the parser: no
  record is returned for it and the line printed is the skip line. Whether the run ends
  or is left by an exception, no error line and no converted line is printed for it, it
  adds nothing to the list returned and nothing to the file system, and no record that is
  written carries a source name with the lock marker. In a run that ends without an
  exception, which is every run with a destination and directory paths that are not empty
  in which no call raises, the list returned and the requests made are exactly those of
  the visited documents, to which the lock file adds nothing, and its skip line is among
  the lines printed. The run keeps a list of converted files only, so there is no list of
  failures it could appear in.
\<close>

theorem lock_file_skipped:
  assumes "startswith filename lock_marker" and "sep \<notin> set filename"
  shows "parse_doc_to_dict e (path_join root filename) =
           ([Skipping_lock_file (path_join root filename)], None) \<and>
         paths_for e d (destination d json_folder) (root, filename) = [] \<and>
         ops_for e d (destination d json_folder) (root, filename) = [] \<and>
         (\<forall>msg. Error_processing (path_join root filename) msg
            \<notin> set (printed_lines (convert_folder e s d json_folder))) \<and>
         (\<forall>json_path. Converted (path_join root filename) json_path
            \<notin> set (printed_lines (convert_folder e s d json_folder))) \<and>
         (\<forall>json_path dat. Write_json json_path dat \<in> set (fs_ops (convert_folder e s d json_folder)) \<longrightarrow>
            \<not> startswith (source_file (metadata dat)) lock_marker) \<and>
         (destination d json_folder \<noteq> [] \<and> (\<forall>t\<in>set (walk e d). fst t \<noteq> []) \<and>
          (\<forall>before request. os_raises s before request = None) \<and>
          (\<forall>line. print_raises s line = None) \<longrightarrow>
            raised (convert_folder e s d json_folder) = None) \<and>
         (raised (convert_folder e s d json_folder) = None \<longrightarrow>
            converted_files (convert_folder e s d json_folder) =
              concat (map (paths_for e d (destination d json_folder)) (visited (walk e d))) \<and>
            fs_ops (convert_folder e s d json_folder) =
              Makedirs (destination d json_folder)
                # concat (map (ops_for e d (destination d json_folder)) (visited (walk e d))) \<and>
            ((root, filename) \<in> set (visited (walk e d)) \<longrightarrow>
               Skipping_lock_file (path_join root filename)
                 \<in> set (printed_lines (convert_folder e s d json_folder))))"
proof -
  let ?j = "destination d json_folder"
  let ?p = "path_join root filename"
  let ?run = "convert_folder e s d json_folder"
  note pre = convert_folder_prefix [of e s d json_folder]
  have sub_lines: "set (printed_lines ?run) \<subseteq> set (concat (map (lines_for e d ?j) (visited (walk e d))))"
    using pre set_mono_prefix by blast
  have sub_ops: "set (fs_ops ?run) \<subseteq> set (Makedirs ?j # concat (map (ops_for e d ?j) (visited (walk e d))))"
    using pre set_mono_prefix by blast
  have parse: "parse_doc_to_dict e ?p = ([Skipping_lock_file ?p], None)"
    by (rule lock_parse [OF assms])
  have lines: "lines_for e d ?j (r', f') = [Skipping_lock_file ?p]" if "path_join r' f' = ?p" for r' f'
    using that parse by (simp add: lines_for_def)
  have other: "l = Skipping_lock_file ?p"
    if "l \<in> set (printed_lines ?run)" and "subject l = ?p" for l
  proof -
    from that(1) sub_lines have "l \<in> set (concat (map (lines_for e d ?j) (visited (walk e d))))"
      by blast
    from line_in_run [OF this] that(2) lines show ?thesis by fastforce
  qed
  have noerr: "\<forall>msg. Error_processing ?p msg \<notin> set (printed_lines ?run)"
    using other by fastforce
  have noconv: "\<forall>json_path. Converted ?p json_path \<notin> set (printed_lines ?run)"
    using other by fastforce
  have written: "\<forall>json_path dat. Write_json json_path dat \<in> set (fs_ops ?run) \<longrightarrow>
            \<not> startswith (source_file (metadata dat)) lock_marker"
  proof (intro allI impI)
    fix json_path dat
    assume "Write_json json_path dat \<in> set (fs_ops ?run)"
    with sub_ops have "Write_json json_path dat \<in> set (concat (map (ops_for e d ?j) (visited (walk e d))))"
      by auto
    then show "\<not> startswith (source_file (metadata dat)) lock_marker"
      by (rule written_source)
  qed
  have calm: "destination d json_folder \<noteq> [] \<and> (\<forall>t\<in>set (walk e d). fst t \<noteq> []) \<and>
          (\<forall>before request. os_raises s before request = None) \<and>
          (\<forall>line. print_raises s line = None) \<longrightarrow> raised ?run = None"
    using convert_folder_calm by blast
  have fin: "raised ?run = None \<longrightarrow>
            converted_files ?run = concat (map (paths_for e d ?j) (visited (walk e d))) \<and>
            fs_ops ?run = Makedirs ?j # concat (map (ops_for e d ?j) (visited (walk e d))) \<and>
            ((root, filename) \<in> set (visited (walk e d)) \<longrightarrow>
               Skipping_lock_file ?p \<in> set (printed_lines ?run))"
  proof (intro impI conjI)
    assume ok: "raised ?run = None"
    note run = convert_folder_run [OF ok]
    show "converted_files ?run = concat (map (paths_for e d ?j) (visited (walk e d)))"
      by (simp add: run)
    show "fs_ops ?run = Makedirs ?j # concat (map (ops_for e d ?j) (visited (walk e d)))"
      by (simp add: run)
    assume "(root, filename) \<in> set (visited (walk e d))"
    with lines [of root filename] show "Skipping_lock_file ?p \<in> set (printed_lines ?run)"
      by (force simp: run)
  qed
  from parse noerr noconv written calm fin show ?thesis
    by (simp add: paths_for_def ops_for_def)
qed

theorem lock_file_skipped_witness:
  "startswith (ustr ''~$a.docx'') lock_marker \<and> sep \<notin> set (ustr ''~$a.docx'') \<and>
   destination (ustr ''in'') (Some (ustr ''out'')) \<noteq> [] \<and>
   walk sample_env (ustr ''in'') =
     [(ustr ''in'', [ustr ''broken'', ustr ''ok''], [ustr ''a.docx'', ustr ''~$a.docx'', ustr ''notes.txt'']),
      (ustr ''in/broken'', [], [ustr ''bad.docx'']),
      (ustr ''in/ok'', [], [ustr ''b.docx''])] \<and>
   ustr ''in'' \<noteq> [] \<and> ustr ''in/broken'' \<noteq> [] \<and> ustr ''in/ok'' \<noteq> [] \<and>
   os_raises calm [] (Makedirs (ustr ''out'')) = None \<and>
   print_raises calm (Converted (ustr ''in/a.docx'') (ustr ''out/./a.json'')) = None \<and>
   raised (convert_folder sample_env calm (ustr ''in'') (Some (ustr ''out''))) = None \<and>
   (ustr ''in'', ustr ''~$a.docx'') \<in> set (visited (walk sample_env (ustr ''in''))) \<and>
   parse_doc_to_dict sample_env (ustr ''in/~$a.docx'') =
     ([Skipping_lock_file (ustr ''in/~$a.docx'')], None) \<and>
   Skipping_lock_file (ustr ''in/~$a.docx'')
     \<in> set (printed_lines (convert_folder sample_env calm (ustr ''in'') (Some (ustr ''out'')))) \<and>
   Error_processing (ustr ''in/~$a.docx'') (ustr ''Package not found'')
     \<notin> set (printed_lines (convert_folder sample_env calm (ustr ''in'') (Some (ustr ''out'')))) \<and>
   Converted (ustr ''in/~$a.docx'') (ustr ''out/./~$a.json'')
     \<notin> set (printed_lines (convert_folder sample_env calm (ustr ''in'') (Some (ustr ''out'')))) \<and>
   Error_processing (ustr ''in/~$a.docx'') (ustr ''Package not found'')
     \<notin> set (printed_lines (convert_folder clash_env clash (ustr ''in'') (Some (ustr ''out''))))"
proof -
  have w: "walk sample_env (ustr ''in'') =
     [(ustr ''in'', [ustr ''broken'', ustr ''ok''], [ustr ''a.docx'', ustr ''~$a.docx'', ustr ''notes.txt'']),
      (ustr ''in/broken'', [], [ustr ''bad.docx'']),
      (ustr ''in/ok'', [], [ustr ''b.docx''])]"
    by (simp add: sample_env_def)
  have h1: "destination (ustr ''in'') (Some (ustr ''out'')) \<noteq> []"
    using sample_wf by simp
  have h3: "(ustr ''in'', ustr ''~$a.docx'') \<in> set (visited (walk sample_env (ustr ''in'')))"
    by (simp add: sample_visited)
  have h4: "startswith (ustr ''~$a.docx'') lock_marker"
    by (simp add: string_eval lock_marker_def)
  have h5: "sep \<notin> set (ustr ''~$a.docx'')"
    by (simp add: string_eval)
  have roots: "ustr ''in'' \<noteq> [] \<and> ustr ''in/broken'' \<noteq> [] \<and> ustr ''in/ok'' \<noteq> []"
    by (simp add: ustr_def)
  have os: "os_raises calm [] (Makedirs (ustr ''out'')) = None \<and>
   print_raises calm (Converted (ustr ''in/a.docx'') (ustr ''out/./a.json'')) = None"
    by (simp add: calm_def)
  note t = lock_file_skipped [OF h4 h5, of sample_env "ustr ''in''" "ustr ''in''" "Some (ustr ''out'')" calm]
  note t1 = t [THEN conjunct1]
  note t4 = t [THEN conjunct2, THEN conjunct2, THEN conjunct2, THEN conjunct1]
  note t5 = t [THEN conjunct2, THEN conjunct2, THEN conjunct2, THEN conjunct2, THEN conjunct1]
  note t7 = t [THEN conjunct2, THEN conjunct2, THEN conjunct2, THEN conjunct2, THEN conjunct2,
               THEN conjunct2, THEN conjunct1]
  note t8 = t [THEN conjunct2, THEN conjunct2, THEN conjunct2, THEN conjunct2, THEN conjunct2,
               THEN conjunct2, THEN conjunct2]
  from t7 h1 sample_wf(3) calm_never
  have ok: "raised (convert_folder sample_env calm (ustr ''in'') (Some (ustr ''out''))) = None"
    by blast
  from t1 have r1: "parse_doc_to_dict sample_env (ustr ''in/~$a.docx'') =
     ([Skipping_lock_file (ustr ''in/~$a.docx'')], None)"
    by (simp add: sample_joins)
  from t8 ok h3 have r2: "Skipping_lock_file (ustr ''in/~$a.docx'')
     \<in> set (printed_lines (convert_folder sample_env calm (ustr ''in'') (Some (ustr ''out''))))"
    by (simp add: sample_joins)
  from t4 have r3: "Error_processing (ustr ''in/~$a.docx'') (ustr ''Package not found'')
     \<notin> set (printed_lines (convert_folder sample_env calm (ustr ''in'') (Some (ustr ''out''))))"
    by (simp add: sample_joins)
  from t5 have r4: "Converted (ustr ''in/~$a.docx'') (ustr ''out/./~$a.json'')
     \<notin> set (printed_lines (convert_folder sample_env calm (ustr ''in'') (Some (ustr ''out''))))"
    by (simp add: sample_joins)
  from lock_file_skipped [OF h4 h5, of clash_env "ustr ''in''" "ustr ''in''" "Some (ustr ''out'')" clash,
         THEN conjunct2, THEN conjunct2, THEN conjunct2, THEN conjunct1]
  have r5: "Error_processing (ustr ''in/~$a.docx'') (ustr ''Package not found'')
     \<notin> set (printed_lines (convert_folder clash_env clash (ustr ''in'') (Some (ustr ''out''))))"
    by (simp add: sample_joins)
  from w h1 h3 h4 h5 roots os ok r1 r2 r3 r4 r5 show ?thesis by simp
qed











end
